theory Spec2Isabelle
  imports Main "HOL-Library.Word"
begin

section \<open>ducible: patch\_image.cpp\<close>

text \<open>
  A shallow embedding of \<^verbatim>\<open>src/patch_image.cpp\<close>: the functions
  \<^verbatim>\<open>patchDebugDataDirectories\<close>, \<^verbatim>\<open>patchOptionalHeader\<close>,
  \<^verbatim>\<open>calculateChecksum\<close>, \<^verbatim>\<open>matchingSignatures\<close>,
  \<^verbatim>\<open>getTempPdbPath\<close>, \<^verbatim>\<open>patchPDB\<close> and
  \<^verbatim>\<open>patchImageImpl\<close>.  The classes they call (\<^verbatim>\<open>PEFile\<close>,
  \<^verbatim>\<open>Patches\<close>, \<^verbatim>\<open>MsfFile\<close>, the MD5 routines, the file helpers) are
  declared in headers that are not part of the source at hand; each is either a parameter
  of the model or a definition marked as modelled from the specification.
\<close>

subsection \<open>Machine types\<close>

type_synonym byte = "8 word"
type_synonym u16 = "16 word"
type_synonym u32 = "32 word"

text \<open>
  \<^verbatim>\<open>size_t\<close> values are natural numbers below \<open>2 ^ 64\<close>; the two operations
  \<^verbatim>\<open>calculateChecksum\<close> performs on them wrap around as unsigned C arithmetic does.
\<close>

definition SIZE_WIDTH :: nat where
  "SIZE_WIDTH = 2 ^ 64"

definition size_sub :: "nat \<Rightarrow> nat \<Rightarrow> nat" where
  "size_sub a b = (if b \<le> a then a - b else a + SIZE_WIDTH - b)"

definition size_add :: "nat \<Rightarrow> nat \<Rightarrow> nat" where
  "size_add a b = (a + b) mod SIZE_WIDTH"

text \<open>
  The object representation of a \<^verbatim>\<open>uint32_t\<close> on the little-endian hosts the
  tool runs on: what \<^verbatim>\<open>memcpy\<close> copies out of such an object.
\<close>

definition u32_bytes :: "u32 \<Rightarrow> byte list" where
  "u32_bytes w = [ucast w, ucast (drop_bit 8 w), ucast (drop_bit 16 w), ucast (drop_bit 24 w)]"

text \<open>
  \<^verbatim>\<open>memcmp(a, b, n)\<close> on two arrays that hold at least \<open>n\<close> bytes each; the
  sign of the result is that of the first differing pair.  The last equation also covers
  arrays shorter than \<open>n\<close>, which the callers below never pass.
\<close>

fun memcmp :: "byte list \<Rightarrow> byte list \<Rightarrow> nat \<Rightarrow> int" where
  "memcmp (a # as) (b # bs) (Suc n) =
     (if a = b then memcmp as bs n else if a < b then - 1 else 1)"
| "memcmp _ _ _ = 0"

text \<open>
  Reading \<open>n\<close> bytes at \<open>buf + pos\<close>.  A read that leaves the buffer has no defined
  behaviour in C; the model answers \<open>None\<close> there.
\<close>

definition mem_read :: "byte list \<Rightarrow> nat \<Rightarrow> nat \<Rightarrow> byte list option" where
  "mem_read buf pos n =
     (if pos + n \<le> length buf then Some (take n (drop pos buf)) else None)"

subsection \<open>Errors\<close>

text \<open>
  The exceptions the file throws: \<^verbatim>\<open>InvalidImage\<close>, \<^verbatim>\<open>InvalidPdb\<close> and
  \<^verbatim>\<open>std::system_error\<close>, each with its message.  \<open>InternalError\<close> is the fatal
  error of \<^verbatim>\<open>Patches::apply\<close>; \<open>MemoryFault\<close> is not an exception of the program,
  it marks a read outside the mapped image.
\<close>

datatype error =
    InvalidImage string
  | InvalidPdb string
  | system_error string
  | InternalError string
  | MemoryFault

subsection \<open>Patches\<close>

text \<open>
  Modelled from the spec: the structure \<^verbatim>\<open>Patch\<close> of the missing \<^verbatim>\<open>patches.h\<close>,
  section 3: ``(byte offset, byte length, pointer/value to write, human-readable label)''.
  \<open>length_bytes\<close> is the member \<^verbatim>\<open>length\<close>.  A patch stores a pointer to the bytes to
  write, and the three objects the pointers of this file refer to are members of the
  \<^verbatim>\<open>PEFile\<close> instance: \<^verbatim>\<open>pe.timestamp\<close>, \<^verbatim>\<open>pe.pdbSignature\<close> and
  \<^verbatim>\<open>pe.pdbAge\<close>.  \<^verbatim>\<open>pe.pdbSignature\<close> is filled in by \<^verbatim>\<open>calculateChecksum\<close>
  after the patches were added, so the pointer is kept symbolic and resolved when the patch
  is applied.
\<close>

datatype value_source = Timestamp | PdbSignature | PdbAge

record Patch =
  offset :: nat
  length_bytes :: nat
  data :: value_source
  name :: string

subsection \<open>MD5\<close>

text \<open>
  \<^verbatim>\<open>md5.h\<close> is not part of the source: the three routines are parameters, over any
  type of contexts.
\<close>

record 'c md5_ops =
  md5_starts :: "'c"
  md5_update :: "'c \<Rightarrow> byte list \<Rightarrow> 'c"
  md5_finish :: "'c \<Rightarrow> byte list"

subsection \<open>calculateChecksum\<close>

text \<open>
  The loop of \<^verbatim>\<open>calculateChecksum\<close> over the patches, with the state \<open>(pos, ctx)\<close>.
\<close>

fun checksumLoop ::
  "'c md5_ops \<Rightarrow> byte list \<Rightarrow> Patch list \<Rightarrow> nat \<Rightarrow> 'c \<Rightarrow> (nat \<times> 'c) option" where
  "checksumLoop H buf [] pos ctx = Some (pos, ctx)"
| "checksumLoop H buf (patch # rest) pos ctx =
     (case mem_read buf pos (size_sub (offset patch) pos) of
        None \<Rightarrow> None
      | Some bs \<Rightarrow>
          checksumLoop H buf rest (size_add (offset patch) (length_bytes patch))
            (md5_update H ctx bs))"

definition calculateChecksum ::
  "'c md5_ops \<Rightarrow> byte list \<Rightarrow> nat \<Rightarrow> Patch list \<Rightarrow> byte list option" where
  "calculateChecksum H buf len patches =
     (case checksumLoop H buf patches 0 (md5_starts H) of
        None \<Rightarrow> None
      | Some (pos, ctx) \<Rightarrow>
          (case mem_read buf pos (size_sub len pos) of
             None \<Rightarrow> None
           | Some bs \<Rightarrow> Some (md5_finish H (md5_update H ctx bs))))"

subsection \<open>Reading the mapped image\<close>

text \<open>
  The value of a \<^verbatim>\<open>uint32_t\<close> whose object representation is the given bytes, and the
  value of a 32-bit member at address \<open>a\<close> of the image.  The pointers the file reads
  through are checked before (by the accessors of \<^verbatim>\<open>PEFile\<close>, or by
  \<^verbatim>\<open>isValidRef\<close>), so the read is made total without a failure case.
\<close>

definition u32_of_bytes :: "byte list \<Rightarrow> u32" where
  "u32_of_bytes bs = foldr (\<lambda>b w. ucast b + 256 * w) bs 0"

definition read_u32 :: "byte list \<Rightarrow> nat \<Rightarrow> u32" where
  "read_u32 buf a = u32_of_bytes (take 4 (drop a buf))"

subsection \<open>matchingSignatures\<close>

text \<open>
  The CodeView record of the image and the header stream of the PDB, as values, with the
  members the file uses.  Both GUID arrays hold 16 bytes.
\<close>

record CV_INFO_PDB70 =
  CvSignature :: u32
  Signature :: "byte list"
  Age :: u32

record PdbStream70 =
  version :: u32
  timestamp :: u32
  age :: u32
  sig70 :: "byte list"

definition matchingSignatures :: "CV_INFO_PDB70 \<Rightarrow> PdbStream70 \<Rightarrow> bool" where
  "matchingSignatures pdbInfo pdbHeader =
     (if CV_INFO_PDB70.Age pdbInfo \<noteq> age pdbHeader \<or>
         memcmp (CV_INFO_PDB70.Signature pdbInfo) (sig70 pdbHeader) 16 \<noteq> 0
      then False
      else True)"

subsection \<open>Pointers into the image and the PEFile accessors\<close>

text \<open>
  A pointer to a structure that lies inside the mapped image is modelled by the addresses of
  the members the file uses, as byte offsets from \<^verbatim>\<open>buf\<close>: for a pointer \<open>p\<close> and a
  member \<open>m\<close>, \<open>m p\<close> is \<^verbatim>\<open>&p->m\<close> minus \<^verbatim>\<open>buf\<close>, and \<open>read_u32 buf (m p)\<close> is
  \<^verbatim>\<open>p->m\<close>.  \<^verbatim>\<open>IMAGE_OPTIONAL_HEADER32\<close> and \<^verbatim>\<open>IMAGE_OPTIONAL_HEADER64\<close> share one
  type: the templates touch the member \<^verbatim>\<open>CheckSum\<close> only, which both have.
\<close>

record IMAGE_FILE_HEADER_ptr =
  TimeDateStamp :: nat

record IMAGE_OPTIONAL_HEADER_ptr =
  CheckSum :: nat

record IMAGE_EXPORT_DIRECTORY_ptr =
  TimeDateStamp :: nat

record IMAGE_RESOURCE_DIRECTORY_ptr =
  TimeDateStamp :: nat

record IMAGE_DEBUG_DIRECTORY_ptr =
  TimeDateStamp :: nat
  Type :: nat
  PointerToRawData :: nat

record CV_INFO_PDB70_ptr =
  CvSignature :: nat
  Signature :: nat
  Age :: nat

text \<open>\<^verbatim>\<open>*pdbInfo\<close>: the record a pointer refers to.\<close>

definition deref_CV_INFO_PDB70 :: "byte list \<Rightarrow> CV_INFO_PDB70_ptr \<Rightarrow> CV_INFO_PDB70" where
  "deref_CV_INFO_PDB70 buf p =
     \<lparr>CV_INFO_PDB70.CvSignature = read_u32 buf (CV_INFO_PDB70_ptr.CvSignature p),
      CV_INFO_PDB70.Signature = take 16 (drop (CV_INFO_PDB70_ptr.Signature p) buf),
      CV_INFO_PDB70.Age = read_u32 buf (CV_INFO_PDB70_ptr.Age p)\<rparr>"

text \<open>
  Constants and layouts that the file takes from headers outside the source
  (\<^verbatim>\<open>pe_file.h\<close>, \<^verbatim>\<open>pdb.h\<close>).  They are parameters of the model:
  \<open>CV_INFO_PDB70_at a\<close> is the pointer \<^verbatim>\<open>(const CV_INFO_PDB70*)(buf + a)\<close>, that is the
  layout of the record laid at address \<open>a\<close>; \<open>PdbStream70_of_bytes\<close> is the object
  representation of \<^verbatim>\<open>PdbStream70\<close> (what reading \<^verbatim>\<open>sizeof(PdbStream70)\<close> bytes into
  the structure yields); \<open>pdbAge\<close> is the member \<^verbatim>\<open>PEFile::pdbAge\<close>.
\<close>

record decls =
  IMAGE_NT_OPTIONAL_HDR32_MAGIC :: u16
  IMAGE_NT_OPTIONAL_HDR64_MAGIC :: u16
  IMAGE_DEBUG_TYPE_CODEVIEW :: u32
  CV_INFO_SIGNATURE_PDB70 :: u32
  CV_INFO_PDB70_at :: "nat \<Rightarrow> CV_INFO_PDB70_ptr"
  vc70 :: u32
  sizeof_PdbStream70 :: nat
  PdbStream70_of_bytes :: "byte list \<Rightarrow> PdbStream70"
  pdbAge :: u32

text \<open>
  Modelled from the spec: the constant \<^verbatim>\<open>PEFile::timestamp\<close>, declared in the missing
  \<^verbatim>\<open>pe_file.h\<close>.  Section 6 of the specification has ``one fixed, well-known epoch value
  (a specific fixed point in time) rather than zero'', and the header comment of
  \<^verbatim>\<open>patch_image.cpp\<close> names it: ``Jan 1, 2010, 0:00:00 GMT'', in seconds since
  Jan 1, 1970.
\<close>

definition PEFile_timestamp :: u32 where
  "PEFile_timestamp = 1262304000"

text \<open>
  The class \<^verbatim>\<open>PEFile\<close> is outside the source.  An instance is modelled by what its
  constructor and accessors answer for the mapped buffer: pointers into it, or an exception.
  \<open>getDebugDataDirs\<close> is the array of \<^verbatim>\<open>debugDirCount\<close> entries that starts at the
  pointer returned, as the pointers to its elements; \<open>pdbInfo_of\<close> is the member function
  \<^verbatim>\<open>pdbInfo\<close>; \<open>isValidRef\<close> is the one for \<^verbatim>\<open>const CV_INFO_PDB70*\<close>.
\<close>

record PEFile =
  fileHeader :: IMAGE_FILE_HEADER_ptr
  magic :: u16
  optionalHeader32 :: "error + IMAGE_OPTIONAL_HEADER_ptr"
  optionalHeader64 :: "error + IMAGE_OPTIONAL_HEADER_ptr"
  pdbInfo_of :: "IMAGE_OPTIONAL_HEADER_ptr \<Rightarrow> error + CV_INFO_PDB70_ptr option"
  getDataDir_EXPORT :: "IMAGE_OPTIONAL_HEADER_ptr \<Rightarrow> error + IMAGE_EXPORT_DIRECTORY_ptr option"
  getDataDir_RESOURCE :: "IMAGE_OPTIONAL_HEADER_ptr \<Rightarrow> error + IMAGE_RESOURCE_DIRECTORY_ptr option"
  getDebugDataDirs :: "IMAGE_OPTIONAL_HEADER_ptr \<Rightarrow> error + IMAGE_DEBUG_DIRECTORY_ptr list"
  isValidRef :: "nat \<Rightarrow> bool"

subsection \<open>The class Patches\<close>

text \<open>
  Modelled from the spec: the class \<^verbatim>\<open>Patches\<close> of the missing \<^verbatim>\<open>patches.h\<close>.
  Section 4.2: \<^verbatim>\<open>add\<close> ``records a patch; no immediate write; does not check overlap
  yet''.  The length is \<^verbatim>\<open>sizeof\<close> of the member patched: 4 for the 32-bit members, 16 for
  the GUID.
\<close>

definition patches_add :: "Patch list \<Rightarrow> nat \<Rightarrow> nat \<Rightarrow> value_source \<Rightarrow> string \<Rightarrow> Patch list" where
  "patches_add patches a n src nm =
     patches @ [\<lparr>offset = a, length_bytes = n, data = src, name = nm\<rparr>]"

text \<open>
  Modelled from the spec: \<^verbatim>\<open>Patches::sort\<close>, section 4.2: ``orders all recorded patches by
  ascending offset''.
\<close>

definition patches_sort :: "Patch list \<Rightarrow> Patch list" where
  "patches_sort patches = sort_key offset patches"

text \<open>The bytes a patch's pointer refers to when the patches are applied.\<close>

definition resolve :: "decls \<Rightarrow> byte list \<Rightarrow> value_source \<Rightarrow> byte list" where
  "resolve K pdbSignature src =
     (case src of
        Timestamp \<Rightarrow> u32_bytes PEFile_timestamp
      | PdbSignature \<Rightarrow> pdbSignature
      | PdbAge \<Rightarrow> u32_bytes (pdbAge K))"

definition mem_write :: "byte list \<Rightarrow> nat \<Rightarrow> byte list \<Rightarrow> byte list" where
  "mem_write buf pos bs = take pos buf @ bs @ drop (pos + length bs) buf"

definition overlaps :: "Patch \<Rightarrow> Patch \<Rightarrow> bool" where
  "overlaps p q =
     (offset p < offset q + length_bytes q \<and> offset q < offset p + length_bytes p)"

text \<open>
  Modelled from the spec: \<^verbatim>\<open>Patches::apply\<close>, section 4.2: ``if \<^verbatim>\<open>dryRun\<close> is false,
  writes every patch's value into the Image at its offset; if true, performs no writes.
  Failure conditions: any patch's range falls outside the Image or overlaps a previously
  applied patch''; the failure is ``a fatal internal-consistency error'', whose message the
  specification does not give.  The patches are taken in order, \<open>applied\<close> holds those
  already done, and the result is the error, if any, with the image as it then stands.
\<close>

fun applyLoop ::
  "(value_source \<Rightarrow> byte list) \<Rightarrow> bool \<Rightarrow> Patch list \<Rightarrow> Patch list \<Rightarrow> byte list \<Rightarrow>
     error option \<times> byte list" where
  "applyLoop V dryRun applied [] buf = (None, buf)"
| "applyLoop V dryRun applied (patch # rest) buf =
     (if length buf < offset patch + length_bytes patch \<or> (\<exists>q \<in> set applied. overlaps patch q)
      then (Some (InternalError ''patch out of range or overlapping''), buf)
      else applyLoop V dryRun (patch # applied) rest
             (if dryRun then buf
              else mem_write buf (offset patch) (take (length_bytes patch) (V (data patch)))))"

definition patches_apply ::
  "(value_source \<Rightarrow> byte list) \<Rightarrow> bool \<Rightarrow> Patch list \<Rightarrow> byte list \<Rightarrow> error option \<times> byte list" where
  "patches_apply V dryRun patches buf = applyLoop V dryRun [] patches buf"

subsection \<open>patchDebugDataDirectories and patchOptionalHeader\<close>

text \<open>
  The loop over the debug directory entries; the state is the patch list and
  \<^verbatim>\<open>cvInfo\<close>, a null pointer at first, then \<^verbatim>\<open>pe.buf + dir->PointerToRawData\<close>.
  \<open>buf\<close> is \<^verbatim>\<open>pe.buf\<close>.
\<close>

fun debugDirLoop ::
  "decls \<Rightarrow> PEFile \<Rightarrow> byte list \<Rightarrow> IMAGE_DEBUG_DIRECTORY_ptr list \<Rightarrow> Patch list \<Rightarrow>
     nat option \<Rightarrow> error + Patch list \<times> nat option" where
  "debugDirLoop K pe buf [] patches cvInfo = Inr (patches, cvInfo)"
| "debugDirLoop K pe buf (dir # rest) patches cvInfo =
     (let patches1 =
        (if read_u32 buf (IMAGE_DEBUG_DIRECTORY_ptr.TimeDateStamp dir) \<noteq> 0
         then patches_add patches (IMAGE_DEBUG_DIRECTORY_ptr.TimeDateStamp dir) 4 Timestamp
                ''IMAGE_DEBUG_DIRECTORY.TimeDateStamp''
         else patches)
      in if read_u32 buf (Type dir) = IMAGE_DEBUG_TYPE_CODEVIEW K
         then (if cvInfo \<noteq> None
               then Inl (InvalidImage ''found multiple CodeView debug entries'')
               else (let cvInfo1 = unat (read_u32 buf (PointerToRawData dir))
                     in if \<not> isValidRef pe cvInfo1
                        then Inl (InvalidImage ''invalid CodeView debug entry location'')
                        else debugDirLoop K pe buf rest patches1 (Some cvInfo1)))
         else debugDirLoop K pe buf rest patches1 cvInfo)"

definition patchDebugDataDirectories ::
  "decls \<Rightarrow> PEFile \<Rightarrow> byte list \<Rightarrow> Patch list \<Rightarrow> IMAGE_OPTIONAL_HEADER_ptr \<Rightarrow>
     error + Patch list" where
  "patchDebugDataDirectories K pe buf patches opt =
     (case getDebugDataDirs pe opt of
        Inl e \<Rightarrow> Inl e
      | Inr dirs \<Rightarrow>
          (case debugDirLoop K pe buf dirs patches None of
             Inl e \<Rightarrow> Inl e
           | Inr (patches1, None) \<Rightarrow> Inr patches1
           | Inr (patches1, Some a) \<Rightarrow>
               (let cvInfo = CV_INFO_PDB70_at K a
                in if read_u32 buf (CV_INFO_PDB70_ptr.CvSignature cvInfo) \<noteq>
                        CV_INFO_SIGNATURE_PDB70 K
                   then Inl (InvalidImage
                          ''unsupported PDB format, only version 7.0 is supported'')
                   else Inr (patches_add
                          (patches_add patches1 (CV_INFO_PDB70_ptr.Signature cvInfo) 16
                             PdbSignature ''PDB Signature'')
                          (CV_INFO_PDB70_ptr.Age cvInfo) 4 PdbAge ''PDB Age''))))"

definition patchOptionalHeader ::
  "decls \<Rightarrow> PEFile \<Rightarrow> byte list \<Rightarrow> Patch list \<Rightarrow> IMAGE_OPTIONAL_HEADER_ptr \<Rightarrow>
     error + Patch list" where
  "patchOptionalHeader K pe buf patches optional =
     (let patches1 = patches_add patches (CheckSum optional) 4 Timestamp
                       ''OptionalHeader.CheckSum''
      in case getDataDir_EXPORT pe optional of
           Inl e \<Rightarrow> Inl e
         | Inr exportDir \<Rightarrow>
             (let patches2 =
                (case exportDir of
                   None \<Rightarrow> patches1
                 | Some dir \<Rightarrow>
                     patches_add patches1 (IMAGE_EXPORT_DIRECTORY_ptr.TimeDateStamp dir) 4
                       Timestamp ''IMAGE_EXPORT_DIRECTORY.TimeDateStamp'')
              in case getDataDir_RESOURCE pe optional of
                   Inl e \<Rightarrow> Inl e
                 | Inr resourceDir \<Rightarrow>
                     (let patches3 =
                        (case resourceDir of
                           None \<Rightarrow> patches2
                         | Some dir \<Rightarrow>
                             patches_add patches2
                               (IMAGE_RESOURCE_DIRECTORY_ptr.TimeDateStamp dir) 4
                               Timestamp ''IMAGE_RESOURCE_DIRECTORY.TimeDateStamp'')
                      in patchDebugDataDirectories K pe buf patches3 optional)))"

subsection \<open>Files and the MSF container\<close>

text \<open>
  The state a run works on: the mapped image (a write to the mapping is a write to the image
  file, so \<open>image\<close> stands for both), and the files the PDB side opens by path.  Whether the
  operating system lets a path be created or removed is part of the state.  The image is kept
  apart from \<open>files\<close>: its path is taken to differ from the PDB's and the temporary file's.
  Lines written to \<^verbatim>\<open>std::cout\<close> are left out.
\<close>

record world =
  image :: "byte list"
  files :: "string \<Rightarrow> byte list option"
  write_denied :: "string \<Rightarrow> bool"
  remove_denied :: "string \<Rightarrow> bool"

text \<open>
  Modelled from the spec: \<^verbatim>\<open>openFile\<close> of the missing \<^verbatim>\<open>file.h\<close>, section 4.5 steps
  1 and 2: ``open the existing PDB container for reading; failure to open is a fatal I/O
  error'' and ``open a temporary file [...] for exclusive write; failure is fatal I/O error''.
  \<open>None\<close> is the null handle.  Mode \<^verbatim>\<open>readExisting\<close> yields the contents of the file;
  mode \<^verbatim>\<open>writeEmpty\<close> leaves an empty file at the path.
\<close>

definition openFile_readExisting :: "world \<Rightarrow> string \<Rightarrow> byte list option" where
  "openFile_readExisting w path = files w path"

definition openFile_writeEmpty :: "world \<Rightarrow> string \<Rightarrow> world option" where
  "openFile_writeEmpty w path =
     (if write_denied w path then None else Some (w\<lparr>files := (files w)(path \<mapsto> [])\<rparr>))"

text \<open>The C library's \<^verbatim>\<open>remove\<close>; \<open>None\<close> is a nonzero return value.\<close>

definition remove_file :: "world \<Rightarrow> string \<Rightarrow> world option" where
  "remove_file w path =
     (if files w path = None \<or> remove_denied w path then None
      else Some (w\<lparr>files := (files w)(path := None)\<rparr>))"

datatype PdbStreamType = streamTable | header | otherStream nat

text \<open>
  Modelled from the spec: the class \<^verbatim>\<open>MsfFile\<close> of the missing \<^verbatim>\<open>msf.h\<close>, section 1:
  ``a black box exposing get stream by index/type and replace stream contents''.  A
  container is the table of its streams; a missing stream is a null pointer.
\<close>

type_synonym 's MsfFile = "PdbStreamType \<Rightarrow> 's option"

definition getStream :: "'s MsfFile \<Rightarrow> PdbStreamType \<Rightarrow> 's option" where
  "getStream msf t = msf t"

definition replaceStream :: "'s MsfFile \<Rightarrow> PdbStreamType \<Rightarrow> 's option \<Rightarrow> 's MsfFile" where
  "replaceStream msf t s = msf(t := s)"

text \<open>
  The rest of the MSF collaborator is a parameter: the constructor, which reads a container
  from the bytes of a file and may throw, \<^verbatim>\<open>write\<close>, which yields the bytes of the
  container or throws, and the two members of a stream the file calls (\<open>stream_read s n\<close>
  is what \<^verbatim>\<open>read(n, dest)\<close> stores at \<^verbatim>\<open>dest\<close>; its length is the value returned).
\<close>

record 's msf_ops =
  MsfFile_ctor :: "byte list \<Rightarrow> error + 's MsfFile"
  MsfFile_write :: "'s MsfFile \<Rightarrow> error + byte list"
  stream_length :: "'s \<Rightarrow> nat"
  stream_read :: "'s \<Rightarrow> nat \<Rightarrow> byte list"

subsection \<open>patchPDB\<close>

definition getTempPdbPath :: "string \<Rightarrow> string" where
  "getTempPdbPath pdbPath = pdbPath @ ''.tmp''"

text \<open>Lines 255 to 269: the header stream is looked up, read and checked.\<close>

definition readPdbHeader :: "decls \<Rightarrow> 's msf_ops \<Rightarrow> 's MsfFile \<Rightarrow> error + PdbStream70" where
  "readPdbHeader K M msf =
     (case getStream msf header of
        None \<Rightarrow> Inl (InvalidPdb ''missing PDB header stream'')
      | Some pdbHeaderStream \<Rightarrow>
          if stream_length M pdbHeaderStream < sizeof_PdbStream70 K
          then Inl (InvalidPdb ''missing PDB 7.0 header'')
          else (let bytes = stream_read M pdbHeaderStream (sizeof_PdbStream70 K)
                in if length bytes \<noteq> sizeof_PdbStream70 K
                   then Inl (InvalidPdb ''missing PDB header'')
                   else (let pdbHeader = PdbStream70_of_bytes K bytes
                         in if version pdbHeader < vc70 K
                            then Inl (InvalidPdb ''unsupported PDB implementation version'')
                            else Inr pdbHeader)))"

text \<open>
  Lines 283 to 299, after both handles are closed.  \<open>win32\<close> tells whether the file was
  compiled with \<^verbatim>\<open>_WIN32\<close> defined: both branches are empty there.
\<close>

definition commitPdb :: "bool \<Rightarrow> bool \<Rightarrow> string \<Rightarrow> world \<Rightarrow> (error + unit) \<times> world" where
  "commitPdb win32 dryrun tmpPdbPath w =
     (if win32 then (Inr (), w)
      else if dryrun
      then (case remove_file w tmpPdbPath of
              None \<Rightarrow> (Inl (system_error ''Failed to delete temporary PDB''), w)
            | Some w' \<Rightarrow> (Inr (), w'))
      else (Inr (), w))"

text \<open>
  \<^verbatim>\<open>pdbInfo\<close> points into the mapped image, so \<^verbatim>\<open>*pdbInfo\<close> is read from the image of
  the state.  The parameter \<^verbatim>\<open>signature\<close> is not used by the function.
\<close>

definition patchPDB ::
  "bool \<Rightarrow> decls \<Rightarrow> 's msf_ops \<Rightarrow> string \<Rightarrow> CV_INFO_PDB70_ptr option \<Rightarrow> byte list \<Rightarrow>
     bool \<Rightarrow> world \<Rightarrow> (error + unit) \<times> world" where
  "patchPDB win32 K M pdbPath pdbInfo signature dryrun w =
     (case openFile_readExisting w pdbPath of
        None \<Rightarrow> (Inl (system_error ''Failed to open PDB file''), w)
      | Some pdb \<Rightarrow>
          (let tmpPdbPath = getTempPdbPath pdbPath
           in case openFile_writeEmpty w tmpPdbPath of
                None \<Rightarrow> (Inl (system_error ''Failed to open file''), w)
              | Some w1 \<Rightarrow>
                  (case MsfFile_ctor M pdb of
                     Inl e \<Rightarrow> (Inl e, w1)
                   | Inr msf0 \<Rightarrow>
                       (let msf = replaceStream msf0 streamTable None
                        in case readPdbHeader K M msf of
                             Inl e \<Rightarrow> (Inl e, w1)
                           | Inr pdbHeader \<Rightarrow>
                               if (case pdbInfo of
                                     None \<Rightarrow> True
                                   | Some info \<Rightarrow>
                                       \<not> matchingSignatures
                                           (deref_CV_INFO_PDB70 (image w) info) pdbHeader)
                               then (Inl (InvalidPdb ''PE and PDB signatures do not match''), w1)
                               else (case MsfFile_write M msf of
                                       Inl e \<Rightarrow> (Inl e, w1)
                                     | Inr bytes \<Rightarrow>
                                         commitPdb win32 dryrun tmpPdbPath
                                           (w1\<lparr>files := (files w1)(tmpPdbPath \<mapsto> bytes)\<rparr>))))))"

subsection \<open>patchImageImpl\<close>

text \<open>Lines 311 to 337: the patches are collected; \<^verbatim>\<open>pdbInfo\<close> comes with them.\<close>

definition collectPatches ::
  "decls \<Rightarrow> PEFile \<Rightarrow> byte list \<Rightarrow> error + CV_INFO_PDB70_ptr option \<times> Patch list" where
  "collectPatches K pe buf =
     (let patches = patches_add [] (IMAGE_FILE_HEADER_ptr.TimeDateStamp (fileHeader pe)) 4
                      Timestamp ''IMAGE_FILE_HEADER.TimeDateStamp''
      in if magic pe = IMAGE_NT_OPTIONAL_HDR32_MAGIC K
         then (case optionalHeader32 pe of
                 Inl e \<Rightarrow> Inl e
               | Inr opt \<Rightarrow>
                   (case pdbInfo_of pe opt of
                      Inl e \<Rightarrow> Inl e
                    | Inr info \<Rightarrow>
                        (case patchOptionalHeader K pe buf patches opt of
                           Inl e \<Rightarrow> Inl e
                         | Inr patches' \<Rightarrow> Inr (info, patches'))))
         else if magic pe = IMAGE_NT_OPTIONAL_HDR64_MAGIC K
         then (case optionalHeader64 pe of
                 Inl e \<Rightarrow> Inl e
               | Inr opt \<Rightarrow>
                   (case pdbInfo_of pe opt of
                      Inl e \<Rightarrow> Inl e
                    | Inr info \<Rightarrow>
                        (case patchOptionalHeader K pe buf patches opt of
                           Inl e \<Rightarrow> Inl e
                         | Inr patches' \<Rightarrow> Inr (info, patches'))))
         else Inl (InvalidImage ''unsupported IMAGE_NT_HEADERS.OptionalHeader''))"

text \<open>
  Lines 309 to 349, everything that comes before \<^verbatim>\<open>patches.apply\<close>: the constructor
  of \<^verbatim>\<open>PEFile\<close> (a parameter, it may throw), the collection of the patches, the sort, the
  checksum and, when a path is given, \<^verbatim>\<open>patchPDB\<close>.  The result is the sorted patch
  list with the checksum stored in \<^verbatim>\<open>pe.pdbSignature\<close>.
\<close>

definition beforeApply ::
  "bool \<Rightarrow> decls \<Rightarrow> 'c md5_ops \<Rightarrow> 's msf_ops \<Rightarrow> (byte list \<Rightarrow> error + PEFile) \<Rightarrow>
     string option \<Rightarrow> bool \<Rightarrow> world \<Rightarrow> (error + Patch list \<times> byte list) \<times> world" where
  "beforeApply win32 K H M PEFile_ctor pdbPath dryrun w =
     (let buf = image w; len = length buf
      in case PEFile_ctor buf of
           Inl e \<Rightarrow> (Inl e, w)
         | Inr pe \<Rightarrow>
             (case collectPatches K pe buf of
                Inl e \<Rightarrow> (Inl e, w)
              | Inr (pdbInfo, patches0) \<Rightarrow>
                  (let patches = patches_sort patches0
                   in case calculateChecksum H buf len patches of
                        None \<Rightarrow> (Inl MemoryFault, w)
                      | Some pdbSignature \<Rightarrow>
                          (case pdbPath of
                             None \<Rightarrow> (Inr (patches, pdbSignature), w)
                           | Some path \<Rightarrow>
                               (case patchPDB win32 K M path pdbInfo pdbSignature dryrun w of
                                  (Inl e, w1) \<Rightarrow> (Inl e, w1)
                                | (Inr _, w1) \<Rightarrow> (Inr (patches, pdbSignature), w1))))))"

definition patchImageImpl ::
  "bool \<Rightarrow> decls \<Rightarrow> 'c md5_ops \<Rightarrow> 's msf_ops \<Rightarrow> (byte list \<Rightarrow> error + PEFile) \<Rightarrow>
     string option \<Rightarrow> bool \<Rightarrow> world \<Rightarrow> (error + unit) \<times> world" where
  "patchImageImpl win32 K H M PEFile_ctor pdbPath dryrun w =
     (case beforeApply win32 K H M PEFile_ctor pdbPath dryrun w of
        (Inl e, w1) \<Rightarrow> (Inl e, w1)
      | (Inr (patches, pdbSignature), w1) \<Rightarrow>
          (case patches_apply (resolve K pdbSignature) dryrun patches (image w1) of
             (Some e, buf) \<Rightarrow> (Inl e, w1\<lparr>image := buf\<rparr>)
           | (None, buf) \<Rightarrow> (Inr (), w1\<lparr>image := buf\<rparr>)))"

subsection \<open>Notions used to state the properties\<close>

text \<open>
  A patch list is sorted and free of overlaps within \<open>[pos, len)\<close> when each patch starts
  at or after the end of the one before it (\<open>pos\<close> for the first) and the last one ends
  at or before \<open>len\<close>.  \<open>in_patch\<close> tells whether a byte offset lies in the range
  \<open>[offset, offset + length)\<close> of some patch, and \<open>gaps\<close> lists the stretches between
  the patches: the bytes before each patch, in order, and the tail after the last.
\<close>

fun sorted_disjoint :: "nat \<Rightarrow> Patch list \<Rightarrow> nat \<Rightarrow> bool" where
  "sorted_disjoint pos [] len = (pos \<le> len)"
| "sorted_disjoint pos (p # ps) len =
     (pos \<le> offset p \<and> sorted_disjoint (offset p + length_bytes p) ps len)"

definition in_patch :: "Patch list \<Rightarrow> nat \<Rightarrow> bool" where
  "in_patch ps i = (\<exists>p \<in> set ps. offset p \<le> i \<and> i < offset p + length_bytes p)"

fun gaps :: "byte list \<Rightarrow> nat \<Rightarrow> Patch list \<Rightarrow> nat \<Rightarrow> byte list list" where
  "gaps buf pos [] len = [take (len - pos) (drop pos buf)]"
| "gaps buf pos (p # ps) len =
     take (offset p - pos) (drop pos buf) # gaps buf (offset p + length_bytes p) ps len"

text \<open>A stand-in for MD5 that keeps every byte it is fed: the digest is the input.\<close>

definition concat_md5 :: "byte list md5_ops" where
  "concat_md5 = \<lparr>md5_starts = [], md5_update = (\<lambda>ctx bs. ctx @ bs), md5_finish = (\<lambda>ctx. ctx)\<rparr>"

text \<open>A CodeView record and a PDB header with the same GUID and age.\<close>

definition cv_example :: CV_INFO_PDB70 where
  "cv_example =
     \<lparr>CV_INFO_PDB70.CvSignature = 0x53445352,
      CV_INFO_PDB70.Signature = [0, 1, 2, 3, 4, 5, 6, 7, 8, 9, 10, 11, 12, 13, 14, 15],
      CV_INFO_PDB70.Age = 3\<rparr>"

definition hdr_example :: PdbStream70 where
  "hdr_example = \<lparr>version = 20000404, timestamp = 77, age = 3,
     sig70 = [0, 1, 2, 3, 4, 5, 6, 7, 8, 9, 10, 11, 12, 13, 14, 15]\<rparr>"

text \<open>
  The debug directory entries of CodeView type, the entries whose \<^verbatim>\<open>TimeDateStamp\<close> is not
  zero, and the patch the loop registers for the \<^verbatim>\<open>TimeDateStamp\<close> of an entry.
\<close>

definition codeviewEntries ::
  "decls \<Rightarrow> byte list \<Rightarrow> IMAGE_DEBUG_DIRECTORY_ptr list \<Rightarrow> IMAGE_DEBUG_DIRECTORY_ptr list" where
  "codeviewEntries K buf dirs =
     filter (\<lambda>d. read_u32 buf (Type d) = IMAGE_DEBUG_TYPE_CODEVIEW K) dirs"

definition debugTimestampPatch :: "IMAGE_DEBUG_DIRECTORY_ptr \<Rightarrow> Patch" where
  "debugTimestampPatch d =
     \<lparr>offset = IMAGE_DEBUG_DIRECTORY_ptr.TimeDateStamp d, length_bytes = 4, data = Timestamp,
      name = ''IMAGE_DEBUG_DIRECTORY.TimeDateStamp''\<rparr>"

definition stampedEntries ::
  "byte list \<Rightarrow> IMAGE_DEBUG_DIRECTORY_ptr list \<Rightarrow> IMAGE_DEBUG_DIRECTORY_ptr list" where
  "stampedEntries buf dirs =
     filter (\<lambda>d. read_u32 buf (IMAGE_DEBUG_DIRECTORY_ptr.TimeDateStamp d) \<noteq> 0) dirs"

text \<open>
  Concrete inputs.  The constants are those of the Windows headers, with a
  \<^verbatim>\<open>PdbStream70\<close> of three little-endian 32-bit members followed by the GUID.  The images
  are 60 bytes long and laid out as a toy format that \<open>tiny_PEFile\<close> parses: the bytes
  \<^verbatim>\<open>MZ\<close> and the optional-header magic, the \<^verbatim>\<open>TimeDateStamp\<close> of the file header at
  offset 4, \<^verbatim>\<open>CheckSum\<close> at 8, two debug directory entries of three members each at 12 and
  24, and a CodeView record at 36.  In \<open>image_ok\<close> the first entry is of CodeView type,
  has a time stamp and points to the record, and the second is of another type with a zero
  time stamp; in \<open>image_two_codeview\<close> both are of CodeView type; in
  \<open>image_bad_codeview\<close> the first of the two points outside the file.
\<close>

definition PdbStream70_le :: "byte list \<Rightarrow> PdbStream70" where
  "PdbStream70_le bs =
     \<lparr>version = u32_of_bytes (take 4 bs), timestamp = u32_of_bytes (take 4 (drop 4 bs)),
      age = u32_of_bytes (take 4 (drop 8 bs)), sig70 = take 16 (drop 12 bs)\<rparr>"

definition decls_example :: decls where
  "decls_example =
     \<lparr>IMAGE_NT_OPTIONAL_HDR32_MAGIC = 0x10b, IMAGE_NT_OPTIONAL_HDR64_MAGIC = 0x20b,
      IMAGE_DEBUG_TYPE_CODEVIEW = 2, CV_INFO_SIGNATURE_PDB70 = 0x53445352,
      CV_INFO_PDB70_at =
        (\<lambda>a. \<lparr>CV_INFO_PDB70_ptr.CvSignature = a, CV_INFO_PDB70_ptr.Signature = a + 4,
               CV_INFO_PDB70_ptr.Age = a + 20\<rparr>),
      vc70 = 20000404, sizeof_PdbStream70 = 28,
      PdbStream70_of_bytes = PdbStream70_le,
      pdbAge = 1\<rparr>"

definition tiny_debug_dirs :: "IMAGE_DEBUG_DIRECTORY_ptr list" where
  "tiny_debug_dirs =
     [\<lparr>TimeDateStamp = 12, Type = 16, PointerToRawData = 20\<rparr>,
      \<lparr>TimeDateStamp = 24, Type = 28, PointerToRawData = 32\<rparr>]"

definition tiny_pe :: "byte list \<Rightarrow> PEFile" where
  "tiny_pe buf =
     \<lparr>fileHeader = \<lparr>IMAGE_FILE_HEADER_ptr.TimeDateStamp = 4\<rparr>,
      magic = ucast (buf ! 2) + 256 * ucast (buf ! 3),
      optionalHeader32 = Inr \<lparr>CheckSum = 8\<rparr>,
      optionalHeader64 = Inr \<lparr>CheckSum = 8\<rparr>,
      pdbInfo_of =
        (\<lambda>opt. Inr (case codeviewEntries decls_example buf tiny_debug_dirs of
                      [] \<Rightarrow> None
                    | d # ds \<Rightarrow>
                        Some (CV_INFO_PDB70_at decls_example
                                (unat (read_u32 buf (PointerToRawData d)))))),
      getDataDir_EXPORT = (\<lambda>opt. Inr None),
      getDataDir_RESOURCE = (\<lambda>opt. Inr None),
      getDebugDataDirs = (\<lambda>opt. Inr tiny_debug_dirs),
      isValidRef = (\<lambda>a. a + 24 \<le> length buf)\<rparr>"

definition tiny_PEFile :: "byte list \<Rightarrow> error + PEFile" where
  "tiny_PEFile buf =
     (if length buf < 60 \<or> take 2 buf \<noteq> [77, 90] then Inl (InvalidImage ''not a PE image'')
      else Inr (tiny_pe buf))"

definition image_ok :: "byte list" where
  "image_ok =
     [77, 90, 11, 1, 93, 92, 91, 90, 52, 18, 0, 0,
      93, 92, 91, 90, 2, 0, 0, 0, 36, 0, 0, 0,
      0, 0, 0, 0, 13, 0, 0, 0, 0, 0, 0, 0,
      82, 83, 68, 83, 0, 1, 2, 3, 4, 5, 6, 7,
      8, 9, 10, 11, 12, 13, 14, 15, 3, 0, 0, 0]"

definition image_two_codeview :: "byte list" where
  "image_two_codeview =
     [77, 90, 11, 1, 93, 92, 91, 90, 52, 18, 0, 0,
      93, 92, 91, 90, 2, 0, 0, 0, 36, 0, 0, 0,
      0, 0, 0, 0, 2, 0, 0, 0, 36, 0, 0, 0,
      82, 83, 68, 83, 0, 1, 2, 3, 4, 5, 6, 7,
      8, 9, 10, 11, 12, 13, 14, 15, 3, 0, 0, 0]"

definition image_bad_codeview :: "byte list" where
  "image_bad_codeview =
     [77, 90, 11, 1, 93, 92, 91, 90, 52, 18, 0, 0,
      93, 92, 91, 90, 2, 0, 0, 0, 0, 255, 255, 255,
      0, 0, 0, 0, 2, 0, 0, 0, 36, 0, 0, 0,
      82, 83, 68, 83, 0, 1, 2, 3, 4, 5, 6, 7,
      8, 9, 10, 11, 12, 13, 14, 15, 3, 0, 0, 0]"

text \<open>
  The names under which the file registers the patches of the four kinds of
  \<^verbatim>\<open>TimeDateStamp\<close> member, and what is expected of a patch so named: it points to
  \<^verbatim>\<open>pe.timestamp\<close> and is four bytes long.
\<close>

definition timestampNames :: "string list" where
  "timestampNames =
     [''IMAGE_FILE_HEADER.TimeDateStamp'', ''IMAGE_EXPORT_DIRECTORY.TimeDateStamp'',
      ''IMAGE_RESOURCE_DIRECTORY.TimeDateStamp'', ''IMAGE_DEBUG_DIRECTORY.TimeDateStamp'']"

definition timestampPatchOk :: "Patch \<Rightarrow> bool" where
  "timestampPatchOk p =
     (name p \<in> set timestampNames \<longrightarrow> data p = Timestamp \<and> length_bytes p = 4)"

text \<open>
  A toy MSF collaborator for concrete runs: the file holds the bytes of the header stream and
  nothing else (an empty file has no header stream), and a container is written back as those
  bytes.  Three PDB files with the GUID 0 to 15: one of version \<^verbatim>\<open>vc70\<close> (20000404) and age 3,
  which matches the CodeView record of the example images, one of an older version
  (19970604), and one of version \<^verbatim>\<open>vc70\<close> and age 4.  A state with the given image, one
  PDB file at \<^verbatim>\<open>a.pdb\<close>, and every path free to be written and removed.
\<close>

definition msf_example :: "byte list msf_ops" where
  "msf_example =
     \<lparr>MsfFile_ctor = (\<lambda>bytes. Inr (\<lambda>t. if t = header \<and> bytes \<noteq> [] then Some bytes else None)),
      MsfFile_write = (\<lambda>msf. Inr (case msf header of None \<Rightarrow> [] | Some s \<Rightarrow> s)),
      stream_length = length,
      stream_read = (\<lambda>s n. take n s)\<rparr>"

definition pdb_good :: "byte list" where
  "pdb_good = [148, 46, 49, 1, 77, 0, 0, 0, 3, 0, 0, 0,
               0, 1, 2, 3, 4, 5, 6, 7, 8, 9, 10, 11, 12, 13, 14, 15]"

definition pdb_old :: "byte list" where
  "pdb_old = [44, 186, 48, 1, 1, 0, 0, 0, 3, 0, 0, 0,
              0, 1, 2, 3, 4, 5, 6, 7, 8, 9, 10, 11, 12, 13, 14, 15]"

definition pdb_other :: "byte list" where
  "pdb_other = [148, 46, 49, 1, 77, 0, 0, 0, 4, 0, 0, 0,
                0, 1, 2, 3, 4, 5, 6, 7, 8, 9, 10, 11, 12, 13, 14, 15]"

definition world_example :: "byte list \<Rightarrow> byte list \<Rightarrow> world" where
  "world_example img pdb =
     \<lparr>image = img, files = (\<lambda>p. if p = ''a.pdb'' then Some pdb else None),
      write_denied = (\<lambda>p. False), remove_denied = (\<lambda>p. False)\<rparr>"

text \<open>The pointer to the CodeView record of the example images.\<close>

definition cv_ptr_example :: CV_INFO_PDB70_ptr where
  "cv_ptr_example =
     \<lparr>CV_INFO_PDB70_ptr.CvSignature = 36, CV_INFO_PDB70_ptr.Signature = 40,
      CV_INFO_PDB70_ptr.Age = 56\<rparr>"

text \<open>
  A stand-in for MD5 with a digest of 16 bytes: each byte of the digest is the sum of the
  bytes fed.
\<close>

definition sum_md5 :: "byte md5_ops" where
  "sum_md5 =
     \<lparr>md5_starts = 0, md5_update = (\<lambda>ctx bs. foldl (+) ctx bs),
      md5_finish = (\<lambda>ctx. [ctx, ctx, ctx, ctx, ctx, ctx, ctx, ctx,
                            ctx, ctx, ctx, ctx, ctx, ctx, ctx, ctx])\<rparr>"

text \<open>
  What it takes for a second run to see what the first one saw.  A patch holds in a buffer
  when the bytes of its range are those it writes.  A 32-bit member at address \<open>a\<close> is
  untouched by a patch list when none of its four bytes lies in a patch.
  \<open>readOnlyFields\<close> lists the members that the collection of the patches reads and does not
  patch: \<^verbatim>\<open>Type\<close> and \<^verbatim>\<open>PointerToRawData\<close> of every debug directory entry, its
  \<^verbatim>\<open>TimeDateStamp\<close> where that is zero, and \<^verbatim>\<open>CvSignature\<close> of the record the first
  CodeView entry points to.  \<open>chosenHeader\<close> is the optional header that the
  \<^verbatim>\<open>switch\<close> on the magic selects, of 32 or of 64 bits.
\<close>

definition holds :: "(value_source \<Rightarrow> byte list) \<Rightarrow> byte list \<Rightarrow> Patch \<Rightarrow> bool" where
  "holds V buf p =
     (take (length_bytes p) (drop (offset p) buf) = take (length_bytes p) (V (data p)))"

definition untouched :: "Patch list \<Rightarrow> nat \<Rightarrow> bool" where
  "untouched ps a =
     (\<not> in_patch ps a \<and> \<not> in_patch ps (a + 1) \<and> \<not> in_patch ps (a + 2) \<and>
      \<not> in_patch ps (a + 3))"

definition readOnlyFields ::
  "decls \<Rightarrow> byte list \<Rightarrow> IMAGE_DEBUG_DIRECTORY_ptr list \<Rightarrow> nat list" where
  "readOnlyFields K buf dirs =
     concat (map (\<lambda>d. [Type d, PointerToRawData d] @
                       (if read_u32 buf (IMAGE_DEBUG_DIRECTORY_ptr.TimeDateStamp d) = 0
                        then [IMAGE_DEBUG_DIRECTORY_ptr.TimeDateStamp d] else [])) dirs) @
     (case codeviewEntries K buf dirs of
        [] \<Rightarrow> []
      | d # ds \<Rightarrow>
          [CV_INFO_PDB70_ptr.CvSignature
             (CV_INFO_PDB70_at K (unat (read_u32 buf (PointerToRawData d))))])"

definition chosenHeader :: "decls \<Rightarrow> PEFile \<Rightarrow> IMAGE_OPTIONAL_HEADER_ptr \<Rightarrow> bool" where
  "chosenHeader K pe opt =
     (if magic pe = IMAGE_NT_OPTIONAL_HDR32_MAGIC K then optionalHeader32 pe = Inr opt
      else if magic pe = IMAGE_NT_OPTIONAL_HDR64_MAGIC K then optionalHeader64 pe = Inr opt
      else False)"

text \<open>
  \<open>image_ok\<close> after a run with \<open>sum_md5\<close>: the time stamps of the file header and of
  the first debug directory entry and the checksum field hold Jan 1, 2010, the GUID holds the
  digest (the bytes outside the patches add up to 34) and the age is 1.
\<close>

definition image_patched :: "byte list" where
  "image_patched =
     [77, 90, 11, 1, 0, 59, 61, 75, 0, 59, 61, 75,
      0, 59, 61, 75, 2, 0, 0, 0, 36, 0, 0, 0,
      0, 0, 0, 0, 13, 0, 0, 0, 0, 0, 0, 0,
      82, 83, 68, 83, 34, 34, 34, 34, 34, 34, 34, 34,
      34, 34, 34, 34, 34, 34, 34, 34, 1, 0, 0, 0]"

text \<open>
  An image of the toy format whose CodeView record lies over the debug directory: the first
  entry, of CodeView type, points to offset 12, its own address, so that its
  \<^verbatim>\<open>TimeDateStamp\<close> reads as \<^verbatim>\<open>RSDS\<close>, the GUID of the record covers the bytes 16 to 31
  and the age the bytes 32 to 35.  The second entry, at 24, has a zero time stamp.
  \<open>image_overlap_patched\<close> is that image after a run with \<open>sum_md5\<close> (the bytes outside
  the patches add up to 179).
\<close>

definition image_overlap :: "byte list" where
  "image_overlap =
     [77, 90, 11, 1, 93, 92, 91, 90, 52, 18, 0, 0,
      82, 83, 68, 83, 2, 0, 0, 0, 12, 0, 0, 0,
      0, 0, 0, 0, 13, 0, 0, 0, 0, 0, 0, 0,
      0, 0, 0, 0, 0, 0, 0, 0, 0, 0, 0, 0,
      0, 0, 0, 0, 0, 0, 0, 0, 0, 0, 0, 0]"

definition image_overlap_patched :: "byte list" where
  "image_overlap_patched =
     [77, 90, 11, 1, 0, 59, 61, 75, 0, 59, 61, 75,
      0, 59, 61, 75, 179, 179, 179, 179, 179, 179, 179, 179,
      179, 179, 179, 179, 179, 179, 179, 179, 1, 0, 0, 0,
      0, 0, 0, 0, 0, 0, 0, 0, 0, 0, 0, 0,
      0, 0, 0, 0, 0, 0, 0, 0, 0, 0, 0, 0]"

section \<open>Properties\<close>

subsection \<open>The checksum skips the patched ranges\<close>

lemma sorted_disjoint_le: "sorted_disjoint pos ps len \<Longrightarrow> pos \<le> len"
proof (induction ps arbitrary: pos)
  case Nil
  then show ?case by simp
next
  case (Cons p ps)
  then have "offset p + length_bytes p \<le> len" by simp
  with Cons.prems show ?case by simp
qed

lemma sorted_disjoint_offsets:
  "sorted_disjoint pos ps len \<Longrightarrow> p \<in> set ps \<Longrightarrow> pos \<le> offset p"
proof (induction ps arbitrary: pos)
  case Nil
  then show ?case by simp
next
  case (Cons q qs)
  show ?case
  proof (cases "p = q")
    case True
    with Cons.prems show ?thesis by simp
  next
    case False
    with Cons.prems have "p \<in> set qs" "sorted_disjoint (offset q + length_bytes q) qs len" by simp_all
    then have "offset q + length_bytes q \<le> offset p" by (rule Cons.IH[rotated])
    with Cons.prems show ?thesis by simp
  qed
qed

lemma checksumLoop_gaps:
  assumes "sorted_disjoint pos ps len" "len \<le> length buf" "len < SIZE_WIDTH"
  shows "\<exists>pos' ctx'. checksumLoop H buf ps pos ctx = Some (pos', ctx') \<and> pos' \<le> len \<and>
           foldl (md5_update H) ctx' [take (len - pos') (drop pos' buf)] =
           foldl (md5_update H) ctx (gaps buf pos ps len)"
  using assms
proof (induction ps arbitrary: pos ctx)
  case Nil
  then show ?case by simp
next
  case (Cons p ps)
  from Cons.prems have le: "pos \<le> offset p" and sd: "sorted_disjoint (offset p + length_bytes p) ps len"
    by simp_all
  from sd have e: "offset p + length_bytes p \<le> len" by (rule sorted_disjoint_le)
  have rd: "mem_read buf pos (size_sub (offset p) pos) = Some (take (offset p - pos) (drop pos buf))"
    using le e Cons.prems(2) by (simp add: mem_read_def size_sub_def)
  have ad: "size_add (offset p) (length_bytes p) = offset p + length_bytes p"
    using e Cons.prems(3) by (simp add: size_add_def)
  from Cons.IH[OF sd Cons.prems(2,3), of "md5_update H ctx (take (offset p - pos) (drop pos buf))"]
  show ?case by (simp add: rd ad)
qed

lemma calculateChecksum_gaps:
  assumes "sorted_disjoint 0 ps len" "len \<le> length buf" "len < SIZE_WIDTH"
  shows "calculateChecksum H buf len ps =
           Some (md5_finish H (foldl (md5_update H) (md5_starts H) (gaps buf 0 ps len)))"
proof -
  from checksumLoop_gaps[OF assms, of H "md5_starts H"]
  obtain pos' ctx' where l: "checksumLoop H buf ps 0 (md5_starts H) = Some (pos', ctx')"
    and le: "pos' \<le> len"
    and f: "foldl (md5_update H) ctx' [take (len - pos') (drop pos' buf)] =
           foldl (md5_update H) (md5_starts H) (gaps buf 0 ps len)" by blast
  have rd: "mem_read buf pos' (size_sub len pos') = Some (take (len - pos') (drop pos' buf))"
    using le assms(2) by (simp add: mem_read_def size_sub_def)
  show ?thesis using f by (simp add: calculateChecksum_def l rd)
qed

lemma take_drop_agree:
  assumes "hi \<le> length b1" "hi \<le> length b2" "\<forall>i. lo \<le> i \<and> i < hi \<longrightarrow> b1 ! i = b2 ! i"
  shows "take (hi - lo) (drop lo b1) = take (hi - lo) (drop lo b2)"
proof (rule nth_equalityI)
  show "length (take (hi - lo) (drop lo b1)) = length (take (hi - lo) (drop lo b2))"
    using assms(1,2) by simp
next
  fix i assume "i < length (take (hi - lo) (drop lo b1))"
  then have i: "i < hi - lo" by simp
  then have "b1 ! (lo + i) = b2 ! (lo + i)" using assms(3) by simp
  then show "take (hi - lo) (drop lo b1) ! i = take (hi - lo) (drop lo b2) ! i"
    using i assms(1,2) by simp
qed

lemma gaps_agree:
  assumes "sorted_disjoint pos ps len" "len \<le> length b1" "len \<le> length b2"
    and "\<forall>i. pos \<le> i \<and> i < len \<and> \<not> in_patch ps i \<longrightarrow> b1 ! i = b2 ! i"
  shows "gaps b1 pos ps len = gaps b2 pos ps len"
  using assms
proof (induction ps arbitrary: pos)
  case Nil
  then show ?case using take_drop_agree[of len b1 b2 pos] by (simp add: in_patch_def)
next
  case (Cons p ps)
  from Cons.prems have le: "pos \<le> offset p" and sd: "sorted_disjoint (offset p + length_bytes p) ps len"
    by simp_all
  from sd have e: "offset p + length_bytes p \<le> len" by (rule sorted_disjoint_le)
  have g: "take (offset p - pos) (drop pos b1) = take (offset p - pos) (drop pos b2)"
  proof (rule take_drop_agree)
    show "offset p \<le> length b1" "offset p \<le> length b2" using e Cons.prems(2,3) by simp_all
    show "\<forall>i. pos \<le> i \<and> i < offset p \<longrightarrow> b1 ! i = b2 ! i"
    proof (intro allI impI)
      fix i assume i: "pos \<le> i \<and> i < offset p"
      have "\<not> in_patch (p # ps) i"
        using i sorted_disjoint_offsets[OF sd] by (fastforce simp: in_patch_def)
      then show "b1 ! i = b2 ! i" using Cons.prems(4) i e by simp
    qed
  qed
  have "gaps b1 (offset p + length_bytes p) ps len = gaps b2 (offset p + length_bytes p) ps len"
  proof (rule Cons.IH[OF sd Cons.prems(2,3)], intro allI impI)
    fix i assume i: "offset p + length_bytes p \<le> i \<and> i < len \<and> \<not> in_patch ps i"
    then have "\<not> in_patch (p # ps) i" by (simp add: in_patch_def)
    then show "b1 ! i = b2 ! i" using Cons.prems(4) i le by simp
  qed
  with g show ?case by simp
qed

text \<open>
  C1.  For a patch list that is sorted and free of overlaps inside \<open>[0, len)\<close>, the digest
  of \<^verbatim>\<open>calculateChecksum\<close> is computed (no read leaves the buffer) from the gaps before the
  patches and the tail after the last one only: two buffers of at least \<open>len\<close> bytes that
  agree on every byte of \<open>[0, len)\<close> outside the patches' ranges get the same digest.
\<close>

theorem calculateChecksum_ignores_patched_bytes:
  assumes "sorted_disjoint 0 patches len"
    and "len \<le> length buf1" and "len \<le> length buf2" and "len < SIZE_WIDTH"
    and "\<forall>i. i < len \<and> \<not> in_patch patches i \<longrightarrow> buf1 ! i = buf2 ! i"
  shows "calculateChecksum H buf1 len patches = calculateChecksum H buf2 len patches \<and>
         calculateChecksum H buf1 len patches =
           Some (md5_finish H (foldl (md5_update H) (md5_starts H) (gaps buf1 0 patches len)))"
proof -
  have "gaps buf1 0 patches len = gaps buf2 0 patches len"
    using assms(1,2,3,5) by (intro gaps_agree) simp_all
  then show ?thesis
    using calculateChecksum_gaps[OF assms(1,2,4), of H] calculateChecksum_gaps[OF assms(1,3,4), of H]
    by simp
qed

theorem calculateChecksum_ignores_patched_bytes_witness:
  "sorted_disjoint 0 [\<lparr>offset = 2, length_bytes = 2, data = Timestamp, name = ''t''\<rparr>] 6 \<and>
   calculateChecksum concat_md5 [1, 2, 3, 4, 5, 6] 6
       [\<lparr>offset = 2, length_bytes = 2, data = Timestamp, name = ''t''\<rparr>] =
     calculateChecksum concat_md5 [1, 2, 9, 8, 5, 6] 6
       [\<lparr>offset = 2, length_bytes = 2, data = Timestamp, name = ''t''\<rparr>] \<and>
   calculateChecksum concat_md5 [1, 2, 3, 4, 5, 6] 6
       [\<lparr>offset = 2, length_bytes = 2, data = Timestamp, name = ''t''\<rparr>] = Some [1, 2, 5, 6]"
proof -
  have agree: "\<forall>i. i < 6 \<and>
      \<not> in_patch [\<lparr>offset = 2, length_bytes = 2, data = Timestamp, name = ''t''\<rparr>] i \<longrightarrow>
      [1, 2, 3, 4, 5, 6 :: byte] ! i = [1, 2, 9, 8, 5, 6] ! i"
    by (auto simp: in_patch_def nth_Cons' less_Suc_eq numeral_eq_Suc)
  have sd: "sorted_disjoint 0 [\<lparr>offset = 2, length_bytes = 2, data = Timestamp, name = ''t''\<rparr>] 6"
    by simp
  have "calculateChecksum concat_md5 [1, 2, 3, 4, 5, 6] 6
       [\<lparr>offset = 2, length_bytes = 2, data = Timestamp, name = ''t''\<rparr>] =
     calculateChecksum concat_md5 [1, 2, 9, 8, 5, 6] 6
       [\<lparr>offset = 2, length_bytes = 2, data = Timestamp, name = ''t''\<rparr>] \<and>
     calculateChecksum concat_md5 [1, 2, 3, 4, 5, 6] 6
       [\<lparr>offset = 2, length_bytes = 2, data = Timestamp, name = ''t''\<rparr>] =
     Some (md5_finish concat_md5 (foldl (md5_update concat_md5) (md5_starts concat_md5)
       (gaps [1, 2, 3, 4, 5, 6] 0
          [\<lparr>offset = 2, length_bytes = 2, data = Timestamp, name = ''t''\<rparr>] 6)))"
    by (rule calculateChecksum_ignores_patched_bytes [OF sd _ _ _ agree])
       (simp_all add: SIZE_WIDTH_def)
  then show ?thesis
    using sd by (simp add: concat_md5_def cong: conj_cong)
qed

subsection \<open>matchingSignatures\<close>

lemma memcmp_zero_iff:
  "n \<le> length a \<Longrightarrow> n \<le> length b \<Longrightarrow> memcmp a b n = 0 \<longleftrightarrow> take n a = take n b"
proof (induction a b n rule: memcmp.induct)
  case (1 a as b bs n)
  then show ?case by auto
qed auto

text \<open>
  C4.  For GUID arrays of 16 bytes, \<^verbatim>\<open>matchingSignatures\<close> holds exactly when the ages are
  equal and the GUIDs are the same byte for byte; from a matching pair, giving any one byte of
  either GUID another value makes it fail.
\<close>

theorem matchingSignatures_iff:
  assumes "length (CV_INFO_PDB70.Signature pdbInfo) = 16" and "length (sig70 pdbHeader) = 16"
  shows "(matchingSignatures pdbInfo pdbHeader \<longleftrightarrow>
            CV_INFO_PDB70.Age pdbInfo = age pdbHeader \<and> CV_INFO_PDB70.Signature pdbInfo = sig70 pdbHeader) \<and>
         (\<forall>k b. matchingSignatures pdbInfo pdbHeader \<and> k < 16 \<and> b \<noteq> sig70 pdbHeader ! k \<longrightarrow>
            \<not> matchingSignatures
                (pdbInfo\<lparr>CV_INFO_PDB70.Signature := (CV_INFO_PDB70.Signature pdbInfo)[k := b]\<rparr>)
                pdbHeader \<and>
            \<not> matchingSignatures pdbInfo (pdbHeader\<lparr>sig70 := (sig70 pdbHeader)[k := b]\<rparr>))"
proof -
  have iff: "matchingSignatures i h \<longleftrightarrow> CV_INFO_PDB70.Age i = age h \<and> CV_INFO_PDB70.Signature i = sig70 h"
    if "length (CV_INFO_PDB70.Signature i) = 16" "length (sig70 h) = 16" for i h
    using that by (simp add: matchingSignatures_def memcmp_zero_iff)
  have upd: "xs[k := b] \<noteq> xs" if "k < length xs" "b \<noteq> xs ! k" for xs :: "byte list" and k b
    using that by (metis nth_list_update_eq)
  show ?thesis
  proof (intro conjI allI impI)
    show "matchingSignatures pdbInfo pdbHeader \<longleftrightarrow>
            CV_INFO_PDB70.Age pdbInfo = age pdbHeader \<and> CV_INFO_PDB70.Signature pdbInfo = sig70 pdbHeader"
      using assms by (rule iff)
  next
    fix k b
    assume h: "matchingSignatures pdbInfo pdbHeader \<and> k < 16 \<and> b \<noteq> sig70 pdbHeader ! k"
    then have eq: "CV_INFO_PDB70.Signature pdbInfo = sig70 pdbHeader" using iff[OF assms] by simp
    have "(sig70 pdbHeader)[k := b] \<noteq> sig70 pdbHeader" using h assms(2) by (intro upd) simp_all
    then show "\<not> matchingSignatures
                (pdbInfo\<lparr>CV_INFO_PDB70.Signature := (CV_INFO_PDB70.Signature pdbInfo)[k := b]\<rparr>)
                pdbHeader"
      using assms eq by (simp add: iff)
  next
    fix k b
    assume h: "matchingSignatures pdbInfo pdbHeader \<and> k < 16 \<and> b \<noteq> sig70 pdbHeader ! k"
    then have eq: "CV_INFO_PDB70.Signature pdbInfo = sig70 pdbHeader" using iff[OF assms] by simp
    have "(sig70 pdbHeader)[k := b] \<noteq> sig70 pdbHeader" using h assms(2) by (intro upd) simp_all
    then show "\<not> matchingSignatures pdbInfo (pdbHeader\<lparr>sig70 := (sig70 pdbHeader)[k := b]\<rparr>)"
      using assms eq by (simp add: iff)
  qed
qed

theorem matchingSignatures_iff_witness:
  "matchingSignatures cv_example hdr_example \<and>
   \<not> matchingSignatures
       (cv_example\<lparr>CV_INFO_PDB70.Signature := (CV_INFO_PDB70.Signature cv_example)[5 := 255]\<rparr>)
       hdr_example \<and>
   \<not> matchingSignatures cv_example (hdr_example\<lparr>sig70 := (sig70 hdr_example)[5 := 255]\<rparr>)"
proof -
  have l1: "length (CV_INFO_PDB70.Signature cv_example) = 16" by (simp add: cv_example_def)
  have l2: "length (sig70 hdr_example) = 16" by (simp add: hdr_example_def)
  have m: "matchingSignatures cv_example hdr_example"
    using matchingSignatures_iff [OF l1 l2] by (simp add: cv_example_def hdr_example_def)
  have b: "(255 :: byte) \<noteq> sig70 hdr_example ! 5" by (simp add: hdr_example_def)
  have k: "(5 :: nat) < 16" by simp
  from matchingSignatures_iff [OF l1 l2, THEN conjunct2, rule_format, of 5 255] m k b
  show ?thesis by simp
qed

subsection \<open>patchDebugDataDirectories\<close>

lemma debugDirLoop_no_codeview:
  "codeviewEntries K buf dirs = [] \<Longrightarrow>
   debugDirLoop K pe buf dirs patches cvInfo =
     Inr (patches @ map debugTimestampPatch (stampedEntries buf dirs), cvInfo)"
proof (induction dirs arbitrary: patches)
  case Nil
  then show ?case by (simp add: stampedEntries_def)
next
  case (Cons d dirs)
  from Cons.prems have t: "read_u32 buf (Type d) \<noteq> IMAGE_DEBUG_TYPE_CODEVIEW K"
    and r: "codeviewEntries K buf dirs = []"
    by (auto simp: codeviewEntries_def split: if_splits)
  show ?case
    using t Cons.IH[OF r]
    by (simp add: stampedEntries_def patches_add_def debugTimestampPatch_def Let_def)
qed

lemma debugDirLoop_second_codeview:
  "codeviewEntries K buf dirs \<noteq> [] \<Longrightarrow>
   debugDirLoop K pe buf dirs patches (Some a) =
     Inl (InvalidImage ''found multiple CodeView debug entries'')"
proof (induction dirs arbitrary: patches)
  case Nil
  then show ?case by (simp add: codeviewEntries_def)
next
  case (Cons d dirs)
  show ?case
  proof (cases "read_u32 buf (Type d) = IMAGE_DEBUG_TYPE_CODEVIEW K")
    case True
    then show ?thesis by (simp add: Let_def)
  next
    case False
    with Cons.prems have "codeviewEntries K buf dirs \<noteq> []" by (simp add: codeviewEntries_def)
    from Cons.IH[OF this] False show ?thesis by (simp add: Let_def)
  qed
qed

lemma debugDirLoop_first_codeview:
  "codeviewEntries K buf dirs = c # cs \<Longrightarrow>
   debugDirLoop K pe buf dirs patches None =
     (if \<not> isValidRef pe (unat (read_u32 buf (PointerToRawData c)))
      then Inl (InvalidImage ''invalid CodeView debug entry location'')
      else if cs \<noteq> [] then Inl (InvalidImage ''found multiple CodeView debug entries'')
      else Inr (patches @ map debugTimestampPatch (stampedEntries buf dirs),
                Some (unat (read_u32 buf (PointerToRawData c)))))"
proof (induction dirs arbitrary: patches)
  case Nil
  then show ?case by (simp add: codeviewEntries_def)
next
  case (Cons d dirs)
  show ?case
  proof (cases "read_u32 buf (Type d) = IMAGE_DEBUG_TYPE_CODEVIEW K")
    case True
    with Cons.prems have c: "c = d" and cs: "codeviewEntries K buf dirs = cs"
      by (simp_all add: codeviewEntries_def)
    show ?thesis
    proof (cases "cs = []")
      case True
      with cs have e: "codeviewEntries K buf dirs = []" by simp
      show ?thesis
        using \<open>read_u32 buf (Type d) = IMAGE_DEBUG_TYPE_CODEVIEW K\<close> c True
          debugDirLoop_no_codeview[OF e]
        by (simp add: Let_def stampedEntries_def patches_add_def debugTimestampPatch_def)
    next
      case False
      with cs have e: "codeviewEntries K buf dirs \<noteq> []" by simp
      show ?thesis
        using \<open>read_u32 buf (Type d) = IMAGE_DEBUG_TYPE_CODEVIEW K\<close> c False
          debugDirLoop_second_codeview[OF e]
        by (simp add: Let_def)
    qed
  next
    case False
    with Cons.prems have "codeviewEntries K buf dirs = c # cs" by (simp add: codeviewEntries_def)
    from Cons.IH[OF this] False show ?thesis
      by (simp add: Let_def stampedEntries_def patches_add_def debugTimestampPatch_def)
  qed
qed

text \<open>
  C6, as amended.  When the debug directory array holds more than one entry of CodeView type,
  \<^verbatim>\<open>patchDebugDataDirectories\<close> throws \<^verbatim>\<open>InvalidImage\<close>: with the message
  ``found multiple CodeView debug entries'' if the record the first CodeView entry points to
  is a valid reference, and with ``invalid CodeView debug entry location'' otherwise, since
  that check stops the loop at the first entry.  With no or one CodeView entry the
  multiple-entries error is not raised.
\<close>

theorem patchDebugDataDirectories_multiple_codeview:
  assumes "getDebugDataDirs pe opt = Inr dirs"
  shows "(1 < length (codeviewEntries K buf dirs) \<longrightarrow>
            patchDebugDataDirectories K pe buf patches opt =
              Inl (InvalidImage
                 (if isValidRef pe (unat (read_u32 buf (PointerToRawData (hd (codeviewEntries K buf dirs)))))
                  then ''found multiple CodeView debug entries''
                  else ''invalid CodeView debug entry location''))) \<and>
         (length (codeviewEntries K buf dirs) \<le> 1 \<longrightarrow>
            patchDebugDataDirectories K pe buf patches opt \<noteq>
              Inl (InvalidImage ''found multiple CodeView debug entries''))"
proof (cases "codeviewEntries K buf dirs")
  case Nil
  then show ?thesis
    using assms debugDirLoop_no_codeview[OF Nil, of pe patches None]
    by (simp add: patchDebugDataDirectories_def)
next
  case (Cons c cs)
  note first = debugDirLoop_first_codeview[OF Cons, of pe patches]
  show ?thesis
  proof (cases cs)
    case Nil
    then show ?thesis
      using assms Cons first by (simp add: patchDebugDataDirectories_def Let_def)
  next
    case (Cons c' cs')
    then show ?thesis
      using assms \<open>codeviewEntries K buf dirs = c # cs\<close> first
      by (simp add: patchDebugDataDirectories_def)
  qed
qed

theorem patchDebugDataDirectories_multiple_codeview_witness:
  "getDebugDataDirs (tiny_pe image_two_codeview) \<lparr>CheckSum = 8\<rparr> = Inr tiny_debug_dirs \<and>
   1 < length (codeviewEntries decls_example image_two_codeview tiny_debug_dirs) \<and>
   patchDebugDataDirectories decls_example (tiny_pe image_two_codeview) image_two_codeview []
       \<lparr>CheckSum = 8\<rparr> =
     Inl (InvalidImage ''found multiple CodeView debug entries'')"
proof -
  have d: "getDebugDataDirs (tiny_pe image_two_codeview) \<lparr>CheckSum = 8\<rparr> = Inr tiny_debug_dirs"
    by (simp add: tiny_pe_def)
  have c: "codeviewEntries decls_example image_two_codeview tiny_debug_dirs = tiny_debug_dirs"
    by (simp add: codeviewEntries_def tiny_debug_dirs_def decls_example_def
        image_two_codeview_def read_u32_def u32_of_bytes_def)
  have v: "isValidRef (tiny_pe image_two_codeview)
             (unat (read_u32 image_two_codeview (PointerToRawData (hd tiny_debug_dirs))))"
    by (simp add: tiny_pe_def tiny_debug_dirs_def image_two_codeview_def read_u32_def
        u32_of_bytes_def)
  show ?thesis
    using patchDebugDataDirectories_multiple_codeview
      [OF d, of decls_example image_two_codeview "[]"] c v d
    by (simp add: tiny_debug_dirs_def)
qed

text \<open>
  The claim as stated fails: two CodeView entries, the first pointing outside the file.  The
  error is the one about the location.
\<close>

theorem multiple_codeview_message_counterexample:
  "1 < length (codeviewEntries decls_example image_bad_codeview tiny_debug_dirs) \<and>
   patchDebugDataDirectories decls_example (tiny_pe image_bad_codeview) image_bad_codeview []
       \<lparr>CheckSum = 8\<rparr> =
     Inl (InvalidImage ''invalid CodeView debug entry location'') \<and>
   patchDebugDataDirectories decls_example (tiny_pe image_bad_codeview) image_bad_codeview []
       \<lparr>CheckSum = 8\<rparr> \<noteq>
     Inl (InvalidImage ''multiple CodeView debug entries'')"
  by (simp add: patchDebugDataDirectories_def tiny_pe_def codeviewEntries_def
      tiny_debug_dirs_def decls_example_def image_bad_codeview_def read_u32_def
      u32_of_bytes_def Let_def patches_add_def)

subsection \<open>Patches::apply writes inside the patches only\<close>

lemma length_mem_write:
  "pos + length bs \<le> length buf \<Longrightarrow> length (mem_write buf pos bs) = length buf"
  by (simp add: mem_write_def)

lemma nth_mem_write:
  assumes "pos + length bs \<le> length buf" and "i < length buf"
  shows "mem_write buf pos bs ! i =
           (if pos \<le> i \<and> i < pos + length bs then bs ! (i - pos) else buf ! i)"
proof -
  have "pos \<le> length buf" using assms by simp
  then show ?thesis
    using assms by (auto simp: mem_write_def nth_append min_def)
qed

lemma length_applyLoop:
  "length (snd (applyLoop V dryRun applied ps buf)) = length buf"
proof (induction ps arbitrary: applied buf)
  case Nil
  then show ?case by simp
next
  case (Cons p ps)
  have "length (mem_write buf (offset p) (take (length_bytes p) (V (data p)))) = length buf"
    if "\<not> length buf < offset p + length_bytes p"
    using that by (intro length_mem_write) simp
  then show ?case by (simp add: Cons.IH)
qed

lemma in_patch_Cons:
  "in_patch (p # ps) i \<longleftrightarrow> (offset p \<le> i \<and> i < offset p + length_bytes p) \<or> in_patch ps i"
  by (auto simp: in_patch_def)

lemma applyLoop_frame:
  "\<not> in_patch ps i \<Longrightarrow> i < length buf \<Longrightarrow> snd (applyLoop V dryRun applied ps buf) ! i = buf ! i"
proof (induction ps arbitrary: applied buf)
  case Nil
  then show ?case by simp
next
  case (Cons p ps)
  from Cons.prems have out: "\<not> (offset p \<le> i \<and> i < offset p + length_bytes p)"
    and rest: "\<not> in_patch ps i" and i: "i < length buf"
    by (simp_all add: in_patch_Cons)
  show ?case
  proof (cases "length buf < offset p + length_bytes p \<or> (\<exists>q \<in> set applied. overlaps p q)")
    case True
    then show ?thesis by simp
  next
    case False
    then have fits: "offset p + length (take (length_bytes p) (V (data p))) \<le> length buf"
      by (simp add: min_def)
    have w: "mem_write buf (offset p) (take (length_bytes p) (V (data p))) ! i = buf ! i"
    proof -
      have "\<not> (offset p \<le> i \<and> i < offset p + length (take (length_bytes p) (V (data p))))"
        using out by (auto simp: min_def)
      then show ?thesis by (simp only: nth_mem_write[OF fits i] if_False)
    qed
    have l: "i < length (mem_write buf (offset p) (take (length_bytes p) (V (data p))))"
      using i by (simp add: length_mem_write[OF fits])
    show ?thesis
    proof (cases dryRun)
      case True
      then show ?thesis using False Cons.IH[OF rest i, of "p # applied"] by simp
    next
      case dry: False
      have "snd (applyLoop V dryRun (p # applied) ps
               (mem_write buf (offset p) (take (length_bytes p) (V (data p))))) ! i =
            mem_write buf (offset p) (take (length_bytes p) (V (data p))) ! i"
        by (rule Cons.IH[OF rest l])
      then show ?thesis using False dry w by simp
    qed
  qed
qed

lemma in_patch_sort: "in_patch (patches_sort ps) i = in_patch ps i"
  by (simp add: in_patch_def patches_sort_def)

subsection \<open>Which patches are collected\<close>

lemma debugDirLoop_timestampPatchOk:
  "debugDirLoop K pe buf dirs patches cvInfo = Inr (patches', cvInfo') \<Longrightarrow>
   \<forall>p \<in> set patches. timestampPatchOk p \<Longrightarrow> \<forall>p \<in> set patches'. timestampPatchOk p"
proof (induction dirs arbitrary: patches cvInfo)
  case Nil
  then show ?case by simp
next
  case (Cons d dirs)
  let ?ps1 = "if read_u32 buf (IMAGE_DEBUG_DIRECTORY_ptr.TimeDateStamp d) \<noteq> 0
         then patches_add patches (IMAGE_DEBUG_DIRECTORY_ptr.TimeDateStamp d) 4 Timestamp
                ''IMAGE_DEBUG_DIRECTORY.TimeDateStamp''
         else patches"
  have ok1: "\<forall>p \<in> set ?ps1. timestampPatchOk p"
    using Cons.prems(2) by (simp add: patches_add_def timestampPatchOk_def)
  from Cons.prems(1) obtain cv1 where "debugDirLoop K pe buf dirs ?ps1 cv1 = Inr (patches', cvInfo')"
    by (auto simp: Let_def split: if_splits)
  from Cons.IH[OF this ok1] show ?case .
qed

lemma debugDirLoop_keeps:
  "debugDirLoop K pe buf dirs patches cvInfo = Inr (patches', cvInfo') \<Longrightarrow>
   set patches \<subseteq> set patches'"
proof (induction dirs arbitrary: patches cvInfo)
  case Nil
  then show ?case by simp
next
  case (Cons d dirs)
  let ?ps1 = "if read_u32 buf (IMAGE_DEBUG_DIRECTORY_ptr.TimeDateStamp d) \<noteq> 0
         then patches_add patches (IMAGE_DEBUG_DIRECTORY_ptr.TimeDateStamp d) 4 Timestamp
                ''IMAGE_DEBUG_DIRECTORY.TimeDateStamp''
         else patches"
  have sub: "set patches \<subseteq> set ?ps1" by (simp add: patches_add_def subset_insertI)
  from Cons.prems(1) obtain cv1 where "debugDirLoop K pe buf dirs ?ps1 cv1 = Inr (patches', cvInfo')"
    by (auto simp: Let_def split: if_splits)
  from Cons.IH[OF this] sub show ?case by blast
qed

lemma patchDebugDataDirectories_Inr:
  assumes "patchDebugDataDirectories K pe buf patches opt = Inr patches'"
  shows "\<exists>dirs ps1 cv. getDebugDataDirs pe opt = Inr dirs \<and>
           debugDirLoop K pe buf dirs patches None = Inr (ps1, cv) \<and>
           (patches' = ps1 \<or>
            (\<exists>a b. patches' = ps1 @
               [\<lparr>offset = a, length_bytes = 16, data = PdbSignature, name = ''PDB Signature''\<rparr>,
                \<lparr>offset = b, length_bytes = 4, data = PdbAge, name = ''PDB Age''\<rparr>]))"
proof -
  obtain dirs where d: "getDebugDataDirs pe opt = Inr dirs"
    using assms by (cases "getDebugDataDirs pe opt") (simp_all add: patchDebugDataDirectories_def)
  obtain ps1 cv where l: "debugDirLoop K pe buf dirs patches None = Inr (ps1, cv)"
    using assms d
    by (cases "debugDirLoop K pe buf dirs patches None") (auto simp: patchDebugDataDirectories_def)
  have "patches' = ps1 \<or>
            (\<exists>a b. patches' = ps1 @
               [\<lparr>offset = a, length_bytes = 16, data = PdbSignature, name = ''PDB Signature''\<rparr>,
                \<lparr>offset = b, length_bytes = 4, data = PdbAge, name = ''PDB Age''\<rparr>])"
    using assms d l
    by (cases cv) (auto simp: patchDebugDataDirectories_def Let_def patches_add_def split: if_splits)
  with d l show ?thesis by blast
qed

lemma patchDebugDataDirectories_keeps:
  assumes "patchDebugDataDirectories K pe buf patches opt = Inr patches'"
  shows "set patches \<subseteq> set patches'"
proof -
  from patchDebugDataDirectories_Inr[OF assms] obtain dirs ps1 cv
    where l: "debugDirLoop K pe buf dirs patches None = Inr (ps1, cv)"
      and p: "patches' = ps1 \<or>
            (\<exists>a b. patches' = ps1 @
               [\<lparr>offset = a, length_bytes = 16, data = PdbSignature, name = ''PDB Signature''\<rparr>,
                \<lparr>offset = b, length_bytes = 4, data = PdbAge, name = ''PDB Age''\<rparr>])"
    by blast
  from p have sub: "set ps1 \<subseteq> set patches'" by auto
  from debugDirLoop_keeps[OF l] sub show ?thesis by blast
qed

lemma patchOptionalHeader_Inr:
  assumes "patchOptionalHeader K pe buf patches opt = Inr patches'"
  shows "\<exists>ex rs. patchDebugDataDirectories K pe buf
           (patches @
            [\<lparr>offset = CheckSum opt, length_bytes = 4, data = Timestamp,
              name = ''OptionalHeader.CheckSum''\<rparr>] @
            (case ex of None \<Rightarrow> []
             | Some dir \<Rightarrow> [\<lparr>offset = IMAGE_EXPORT_DIRECTORY_ptr.TimeDateStamp dir,
                 length_bytes = 4, data = Timestamp,
                 name = ''IMAGE_EXPORT_DIRECTORY.TimeDateStamp''\<rparr>]) @
            (case rs of None \<Rightarrow> []
             | Some dir \<Rightarrow> [\<lparr>offset = IMAGE_RESOURCE_DIRECTORY_ptr.TimeDateStamp dir,
                 length_bytes = 4, data = Timestamp,
                 name = ''IMAGE_RESOURCE_DIRECTORY.TimeDateStamp''\<rparr>])) opt = Inr patches' \<and>
         getDataDir_EXPORT pe opt = Inr ex \<and> getDataDir_RESOURCE pe opt = Inr rs"
proof -
  obtain ex where e: "getDataDir_EXPORT pe opt = Inr ex"
    using assms by (cases "getDataDir_EXPORT pe opt") (simp_all add: patchOptionalHeader_def Let_def)
  obtain rs where r: "getDataDir_RESOURCE pe opt = Inr rs"
    using assms e
    by (cases "getDataDir_RESOURCE pe opt") (simp_all add: patchOptionalHeader_def Let_def)
  show ?thesis
    using assms e r
    by (cases ex; cases rs) (simp_all add: patchOptionalHeader_def Let_def patches_add_def)
qed

lemma patchOptionalHeader_keeps:
  assumes "patchOptionalHeader K pe buf patches opt = Inr patches'"
  shows "set patches \<subseteq> set patches'"
proof -
  from patchOptionalHeader_Inr[OF assms] obtain ps3
    where d: "patchDebugDataDirectories K pe buf (patches @ ps3) opt = Inr patches'"
    by blast
  from patchDebugDataDirectories_keeps[OF d] show ?thesis by simp
qed

lemma patchDebugDataDirectories_timestampPatchOk:
  assumes "patchDebugDataDirectories K pe buf patches opt = Inr patches'"
    and "\<forall>p \<in> set patches. timestampPatchOk p"
  shows "\<forall>p \<in> set patches'. timestampPatchOk p"
proof -
  from patchDebugDataDirectories_Inr[OF assms(1)] obtain dirs ps1 cv
    where l: "debugDirLoop K pe buf dirs patches None = Inr (ps1, cv)"
      and p: "patches' = ps1 \<or>
            (\<exists>a b. patches' = ps1 @
               [\<lparr>offset = a, length_bytes = 16, data = PdbSignature, name = ''PDB Signature''\<rparr>,
                \<lparr>offset = b, length_bytes = 4, data = PdbAge, name = ''PDB Age''\<rparr>])"
    by blast
  from p have sub: "set patches' \<subseteq> set ps1 \<union>
         {p. name p = ''PDB Signature'' \<or> name p = ''PDB Age''}"
    by auto
  have "\<forall>p \<in> set ps1. timestampPatchOk p"
    by (rule debugDirLoop_timestampPatchOk[OF l assms(2)])
  moreover have "timestampPatchOk p" if "name p = ''PDB Signature'' \<or> name p = ''PDB Age''" for p
    using that by (auto simp: timestampPatchOk_def timestampNames_def)
  ultimately show ?thesis using sub by blast
qed

lemma patchOptionalHeader_timestampPatchOk:
  assumes "patchOptionalHeader K pe buf patches opt = Inr patches'"
    and "\<forall>p \<in> set patches. timestampPatchOk p"
  shows "\<forall>p \<in> set patches'. timestampPatchOk p"
proof -
  from patchOptionalHeader_Inr[OF assms(1)]
  obtain ex :: "IMAGE_EXPORT_DIRECTORY_ptr option" and rs :: "IMAGE_RESOURCE_DIRECTORY_ptr option" and ps3
    where d: "patchDebugDataDirectories K pe buf (patches @ ps3) opt = Inr patches'"
      and ps3: "ps3 = [\<lparr>offset = CheckSum opt, length_bytes = 4, data = Timestamp,
              name = ''OptionalHeader.CheckSum''\<rparr>] @
            (case ex of None \<Rightarrow> []
             | Some dir \<Rightarrow> [\<lparr>offset = IMAGE_EXPORT_DIRECTORY_ptr.TimeDateStamp dir,
                 length_bytes = 4, data = Timestamp,
                 name = ''IMAGE_EXPORT_DIRECTORY.TimeDateStamp''\<rparr>]) @
            (case rs of None \<Rightarrow> []
             | Some dir \<Rightarrow> [\<lparr>offset = IMAGE_RESOURCE_DIRECTORY_ptr.TimeDateStamp dir,
                 length_bytes = 4, data = Timestamp,
                 name = ''IMAGE_RESOURCE_DIRECTORY.TimeDateStamp''\<rparr>])"
    by blast
  have "\<forall>p \<in> set ps3. timestampPatchOk p"
    unfolding ps3 by (auto simp: timestampPatchOk_def split: option.splits)
  with assms(2) have "\<forall>p \<in> set (patches @ ps3). timestampPatchOk p" by auto
  from patchDebugDataDirectories_timestampPatchOk[OF d this] show ?thesis .
qed

lemma collectPatches_cases:
  assumes "collectPatches K pe buf = Inr (info, patches)"
  obtains opt where
    "patchOptionalHeader K pe buf
       [\<lparr>offset = IMAGE_FILE_HEADER_ptr.TimeDateStamp (fileHeader pe), length_bytes = 4,
         data = Timestamp, name = ''IMAGE_FILE_HEADER.TimeDateStamp''\<rparr>] opt = Inr patches"
    and "pdbInfo_of pe opt = Inr info"
  using assms
  by (auto simp: collectPatches_def Let_def patches_add_def split: if_splits sum.splits)

lemma u32_bytes_PEFile_timestamp: "u32_bytes PEFile_timestamp = [0, 59, 61, 75]"
  by (simp add: u32_bytes_def PEFile_timestamp_def drop_bit_eq_div)

subsection \<open>patchPDB\<close>

lemma image_commitPdb: "image (snd (commitPdb win32 dryrun p w)) = image w"
  by (simp add: commitPdb_def remove_file_def split: option.splits)

lemma image_patchPDB:
  "image (snd (patchPDB win32 K M pdbPath pdbInfo signature dryrun w)) = image w"
  by (auto simp: patchPDB_def openFile_readExisting_def openFile_writeEmpty_def Let_def
      image_commitPdb split: option.splits sum.splits if_splits)

lemma getStream_header_replaceStream [simp]:
  "getStream (replaceStream msf streamTable s) header = getStream msf header"
  by (simp add: getStream_def replaceStream_def)

text \<open>
  C7.  Once the PDB is open, the temporary file is created and the container is loaded, a
  container without a header stream, with a header stream shorter than
  \<^verbatim>\<open>sizeof(PdbStream70)\<close>, or with a header whose version is below \<^verbatim>\<open>vc70\<close> makes
  \<^verbatim>\<open>patchPDB\<close> throw \<^verbatim>\<open>InvalidPdb\<close>.  The state it leaves is the one right after the
  temporary file was created: the temporary file is empty, the container was not written.
\<close>

theorem patchPDB_rejects_bad_header:
  assumes "files w pdbPath = Some pdb"
    and "\<not> write_denied w (getTempPdbPath pdbPath)"
    and "MsfFile_ctor M pdb = Inr msf"
    and "getStream msf header = None \<or>
         (\<exists>s. getStream msf header = Some s \<and>
            (stream_length M s < sizeof_PdbStream70 K \<or>
             version (PdbStream70_of_bytes K (stream_read M s (sizeof_PdbStream70 K))) < vc70 K))"
  shows "\<exists>msg. patchPDB win32 K M pdbPath pdbInfo signature dryrun w =
           (Inl (InvalidPdb msg), w\<lparr>files := (files w)(getTempPdbPath pdbPath \<mapsto> [])\<rparr>) \<and>
           msg \<in> {''missing PDB header stream'', ''missing PDB 7.0 header'', ''missing PDB header'',
                   ''unsupported PDB implementation version''}"
proof -
  have "\<exists>msg. readPdbHeader K M (replaceStream msf streamTable None) = Inl (InvalidPdb msg) \<and>
           msg \<in> {''missing PDB header stream'', ''missing PDB 7.0 header'', ''missing PDB header'',
                   ''unsupported PDB implementation version''}"
    using assms(4) by (auto simp: readPdbHeader_def Let_def)
  then show ?thesis
    using assms(1-3)
    by (auto simp: patchPDB_def openFile_readExisting_def openFile_writeEmpty_def Let_def)
qed

theorem patchPDB_rejects_bad_header_witness:
  "files (world_example image_ok [1, 2, 3]) ''a.pdb'' = Some [1, 2, 3] \<and>
   \<not> write_denied (world_example image_ok [1, 2, 3]) (getTempPdbPath ''a.pdb'') \<and>
   stream_length msf_example [1, 2, 3] < sizeof_PdbStream70 decls_example \<and>
   patchPDB False decls_example msf_example ''a.pdb'' (Some cv_ptr_example) (replicate 16 7)
       False (world_example image_ok [1, 2, 3]) =
     (Inl (InvalidPdb ''missing PDB 7.0 header''),
      (world_example image_ok [1, 2, 3])
        \<lparr>files := (files (world_example image_ok [1, 2, 3]))(''a.pdb.tmp'' \<mapsto> [])\<rparr>)"
proof -
  let ?w = "world_example image_ok [1, 2, 3]"
  let ?msf = "\<lambda>t. if t = header \<and> [1, 2, 3 :: byte] \<noteq> [] then Some [1, 2, 3 :: byte] else None"
  have f: "files ?w ''a.pdb'' = Some [1, 2, 3]" by (simp add: world_example_def)
  have d: "\<not> write_denied ?w (getTempPdbPath ''a.pdb'')" by (simp add: world_example_def)
  have c: "MsfFile_ctor msf_example [1, 2, 3] = Inr ?msf" by (simp add: msf_example_def)
  have l: "stream_length msf_example [1, 2, 3] < sizeof_PdbStream70 decls_example"
    by (simp add: msf_example_def decls_example_def)
  have b: "getStream ?msf header = None \<or>
         (\<exists>s. getStream ?msf header = Some s \<and>
            (stream_length msf_example s < sizeof_PdbStream70 decls_example \<or>
             version (PdbStream70_of_bytes decls_example
               (stream_read msf_example s (sizeof_PdbStream70 decls_example))) < vc70 decls_example))"
    using l by (simp add: getStream_def)
  from patchPDB_rejects_bad_header [OF f d c b, of False "Some cv_ptr_example" "replicate 16 7" False]
  obtain msg where r: "patchPDB False decls_example msf_example ''a.pdb'' (Some cv_ptr_example)
       (replicate 16 7) False ?w =
     (Inl (InvalidPdb msg), ?w\<lparr>files := (files ?w)(getTempPdbPath ''a.pdb'' \<mapsto> [])\<rparr>)"
    by blast
  moreover have "fst (patchPDB False decls_example msf_example ''a.pdb'' (Some cv_ptr_example)
       (replicate 16 7) False ?w) = Inl (InvalidPdb ''missing PDB 7.0 header'')"
    by (simp add: patchPDB_def openFile_readExisting_def openFile_writeEmpty_def Let_def
        world_example_def msf_example_def readPdbHeader_def getStream_def replaceStream_def
        decls_example_def getTempPdbPath_def)
  ultimately show ?thesis using f d l by (simp add: getTempPdbPath_def)
qed

text \<open>
  C3, as amended.  With a null \<^verbatim>\<open>pdbInfo\<close>, \<^verbatim>\<open>patchPDB\<close> always throws and leaves
  the files as they were, but for the empty temporary file if it got that far.  The exception
  is \<^verbatim>\<open>InvalidPdb\<close> with ``PE and PDB signatures do not match'' when the steps before
  the check have succeeded (both files opened, the container loaded, the header stream present,
  long enough, read in full and of a supported version) and \<^verbatim>\<open>pdbInfo\<close> is null or does
  not match the header read; the container is not written.
\<close>

theorem patchPDB_signature_check:
  "(pdbInfo = None \<longrightarrow>
      (\<exists>e w'. patchPDB win32 K M pdbPath pdbInfo signature dryrun w = (Inl e, w') \<and>
         (w' = w \<or> w' = w\<lparr>files := (files w)(getTempPdbPath pdbPath \<mapsto> [])\<rparr>))) \<and>
   (files w pdbPath = Some pdb \<and> \<not> write_denied w (getTempPdbPath pdbPath) \<and>
    MsfFile_ctor M pdb = Inr msf \<and>
    readPdbHeader K M (replaceStream msf streamTable None) = Inr pdbHeader \<and>
    (pdbInfo = None \<or> (\<exists>info. pdbInfo = Some info \<and>
        \<not> matchingSignatures (deref_CV_INFO_PDB70 (image w) info) pdbHeader)) \<longrightarrow>
      patchPDB win32 K M pdbPath pdbInfo signature dryrun w =
        (Inl (InvalidPdb ''PE and PDB signatures do not match''),
         w\<lparr>files := (files w)(getTempPdbPath pdbPath \<mapsto> [])\<rparr>))"
proof (intro conjI impI)
  assume "pdbInfo = None"
  then show "\<exists>e w'. patchPDB win32 K M pdbPath pdbInfo signature dryrun w = (Inl e, w') \<and>
         (w' = w \<or> w' = w\<lparr>files := (files w)(getTempPdbPath pdbPath \<mapsto> [])\<rparr>)"
    by (auto simp: patchPDB_def openFile_readExisting_def openFile_writeEmpty_def Let_def
        split: option.splits sum.splits)
next
  assume "files w pdbPath = Some pdb \<and> \<not> write_denied w (getTempPdbPath pdbPath) \<and>
    MsfFile_ctor M pdb = Inr msf \<and>
    readPdbHeader K M (replaceStream msf streamTable None) = Inr pdbHeader \<and>
    (pdbInfo = None \<or> (\<exists>info. pdbInfo = Some info \<and>
        \<not> matchingSignatures (deref_CV_INFO_PDB70 (image w) info) pdbHeader))"
  then show "patchPDB win32 K M pdbPath pdbInfo signature dryrun w =
        (Inl (InvalidPdb ''PE and PDB signatures do not match''),
         w\<lparr>files := (files w)(getTempPdbPath pdbPath \<mapsto> [])\<rparr>)"
    by (auto simp: patchPDB_def openFile_readExisting_def openFile_writeEmpty_def Let_def)
qed

theorem patchPDB_signature_check_witness:
  "files (world_example image_ok pdb_other) ''a.pdb'' = Some pdb_other \<and>
   \<not> write_denied (world_example image_ok pdb_other) (getTempPdbPath ''a.pdb'') \<and>
   readPdbHeader decls_example msf_example
       (replaceStream (\<lambda>t. if t = header \<and> pdb_other \<noteq> [] then Some pdb_other else None)
          streamTable None) = Inr (hdr_example\<lparr>age := 4\<rparr>) \<and>
   deref_CV_INFO_PDB70 (image (world_example image_ok pdb_other)) cv_ptr_example = cv_example \<and>
   \<not> matchingSignatures cv_example (hdr_example\<lparr>age := 4\<rparr>) \<and>
   patchPDB False decls_example msf_example ''a.pdb'' (Some cv_ptr_example) (replicate 16 7)
       False (world_example image_ok pdb_other) =
     (Inl (InvalidPdb ''PE and PDB signatures do not match''),
      (world_example image_ok pdb_other)
        \<lparr>files := (files (world_example image_ok pdb_other))(''a.pdb.tmp'' \<mapsto> [])\<rparr>)"
proof -
  let ?w = "world_example image_ok pdb_other"
  let ?msf = "\<lambda>t. if t = header \<and> pdb_other \<noteq> [] then Some pdb_other else None"
  let ?h = "hdr_example\<lparr>age := 4\<rparr>"
  have f: "files ?w ''a.pdb'' = Some pdb_other" by (simp add: world_example_def)
  have d: "\<not> write_denied ?w (getTempPdbPath ''a.pdb'')" by (simp add: world_example_def)
  have c: "MsfFile_ctor msf_example pdb_other = Inr ?msf" by (simp add: msf_example_def)
  have h: "readPdbHeader decls_example msf_example (replaceStream ?msf streamTable None) = Inr ?h"
    by (simp add: readPdbHeader_def getStream_def replaceStream_def msf_example_def
        decls_example_def pdb_other_def PdbStream70_le_def u32_of_bytes_def hdr_example_def Let_def)
  have v: "deref_CV_INFO_PDB70 (image ?w) cv_ptr_example = cv_example"
    by (simp add: deref_CV_INFO_PDB70_def world_example_def cv_ptr_example_def cv_example_def
        image_ok_def read_u32_def u32_of_bytes_def)
  have m: "\<not> matchingSignatures cv_example ?h"
    by (simp add: matchingSignatures_def cv_example_def hdr_example_def)
  have "patchPDB False decls_example msf_example ''a.pdb'' (Some cv_ptr_example)
          (replicate 16 7) False ?w =
     (Inl (InvalidPdb ''PE and PDB signatures do not match''),
      ?w\<lparr>files := (files ?w)(getTempPdbPath ''a.pdb'' \<mapsto> [])\<rparr>)"
    using patchPDB_signature_check
      [where pdbInfo = "Some cv_ptr_example" and w = ?w and pdbPath = "''a.pdb''"
         and pdb = pdb_other and M = msf_example and msf = ?msf and K = decls_example
         and pdbHeader = ?h and signature = "replicate 16 7" and dryrun = False, of False]
      f d c h m v
    by auto
  then show ?thesis using f d h m v by (simp add: getTempPdbPath_def)
qed

text \<open>
  The claim as stated fails: with a null \<^verbatim>\<open>pdbInfo\<close> and a PDB of an older version, the
  version check comes first and the message is the one about the version.
\<close>

theorem signature_mismatch_message_counterexample:
  "patchPDB False decls_example msf_example ''a.pdb'' None (replicate 16 7) False
       (world_example image_ok pdb_old) =
     (Inl (InvalidPdb ''unsupported PDB implementation version''),
      (world_example image_ok pdb_old)
        \<lparr>files := (files (world_example image_ok pdb_old))(''a.pdb.tmp'' \<mapsto> [])\<rparr>) \<and>
   patchPDB False decls_example msf_example ''a.pdb'' None (replicate 16 7) False
       (world_example image_ok pdb_old) \<noteq>
     (Inl (InvalidPdb ''PE and PDB signatures do not match''),
      (world_example image_ok pdb_old)
        \<lparr>files := (files (world_example image_ok pdb_old))(''a.pdb.tmp'' \<mapsto> [])\<rparr>)"
  by (simp add: patchPDB_def openFile_readExisting_def openFile_writeEmpty_def Let_def
      world_example_def msf_example_def readPdbHeader_def getStream_def replaceStream_def
      decls_example_def getTempPdbPath_def pdb_old_def PdbStream70_le_def u32_of_bytes_def)

text \<open>
  C9.  A dry run on a matching pair where the temporary file cannot be removed.  Compiled
  with \<^verbatim>\<open>_WIN32\<close>, \<^verbatim>\<open>patchPDB\<close> returns normally and the temporary file stays, with
  the container written to it; compiled without, the same run throws
  ``Failed to delete temporary PDB''.  Where removal is allowed, the temporary file is still
  there after the \<^verbatim>\<open>_WIN32\<close> run and gone after the other.
\<close>

theorem dry_run_win32_leaves_temporary_file:
  "patchPDB True decls_example msf_example ''a.pdb'' (Some cv_ptr_example) (replicate 16 7) True
       ((world_example image_ok pdb_good)\<lparr>remove_denied := (\<lambda>p. True)\<rparr>) =
     (Inr (),
      (world_example image_ok pdb_good)
        \<lparr>remove_denied := (\<lambda>p. True),
         files := (files (world_example image_ok pdb_good))(''a.pdb.tmp'' \<mapsto> pdb_good)\<rparr>) \<and>
   patchPDB False decls_example msf_example ''a.pdb'' (Some cv_ptr_example) (replicate 16 7) True
       ((world_example image_ok pdb_good)\<lparr>remove_denied := (\<lambda>p. True)\<rparr>) =
     (Inl (system_error ''Failed to delete temporary PDB''),
      (world_example image_ok pdb_good)
        \<lparr>remove_denied := (\<lambda>p. True),
         files := (files (world_example image_ok pdb_good))(''a.pdb.tmp'' \<mapsto> pdb_good)\<rparr>) \<and>
   fst (patchPDB True decls_example msf_example ''a.pdb'' (Some cv_ptr_example)
       (replicate 16 7) True (world_example image_ok pdb_good)) = Inr () \<and>
   files (snd (patchPDB True decls_example msf_example ''a.pdb'' (Some cv_ptr_example)
       (replicate 16 7) True (world_example image_ok pdb_good))) ''a.pdb.tmp'' = Some pdb_good \<and>
   files (snd (patchPDB False decls_example msf_example ''a.pdb'' (Some cv_ptr_example)
       (replicate 16 7) True (world_example image_ok pdb_good))) ''a.pdb.tmp'' = None"
proof -
  have v: "deref_CV_INFO_PDB70 image_ok cv_ptr_example = cv_example"
    by (simp add: deref_CV_INFO_PDB70_def cv_ptr_example_def cv_example_def
        image_ok_def read_u32_def u32_of_bytes_def)
  have h: "PdbStream70_le pdb_good = hdr_example"
    by (simp add: pdb_good_def PdbStream70_le_def u32_of_bytes_def hdr_example_def)
  have m: "matchingSignatures cv_example hdr_example"
    by (simp add: matchingSignatures_def cv_example_def hdr_example_def memcmp_zero_iff)
  have l: "length pdb_good = 28" "pdb_good \<noteq> []" by (simp_all add: pdb_good_def)
  show ?thesis
    by (simp add: patchPDB_def openFile_readExisting_def openFile_writeEmpty_def Let_def
      world_example_def msf_example_def readPdbHeader_def getStream_def replaceStream_def
      decls_example_def getTempPdbPath_def commitPdb_def remove_file_def v h m l)
       (simp add: hdr_example_def)
qed

subsection \<open>patchImageImpl writes the image last\<close>

lemma image_patchPDB_result:
  "patchPDB win32 K M pdbPath pdbInfo signature dryrun w = (r, w1) \<Longrightarrow> image w1 = image w"
  using image_patchPDB[of win32 K M pdbPath pdbInfo signature dryrun w] by simp

lemma image_beforeApply:
  "image (snd (beforeApply win32 K H M P pdbPath dryrun w)) = image w"
  by (auto simp: beforeApply_def Let_def dest: image_patchPDB_result
      split: sum.splits option.splits prod.splits)

lemma files_patchPDB:
  "files (snd (patchPDB win32 K M pdbPath pdbInfo signature dryrun w)) p = files w p \<or>
   p = getTempPdbPath pdbPath"
  by (auto simp: patchPDB_def openFile_readExisting_def openFile_writeEmpty_def Let_def
      commitPdb_def remove_file_def split: option.splits sum.splits if_splits)

lemma applyLoop_dryRun: "snd (applyLoop V True applied ps buf) = buf"
  by (induction ps arbitrary: applied) auto

text \<open>
  C2.  The stages that come before \<^verbatim>\<open>patches.apply\<close> leave the image as it is.  When one
  of them throws, \<^verbatim>\<open>patchImageImpl\<close> ends with that exception and the state the stage
  left: \<^verbatim>\<open>apply\<close> is not run and no byte of the image is written.  This holds for the
  constructor of \<^verbatim>\<open>PEFile\<close>, for the collection of the patches, and for
  \<^verbatim>\<open>patchPDB\<close> when a PDB path is given.
\<close>

theorem image_written_by_apply_only:
  "image (snd (beforeApply win32 K H M P pdbPath dryrun w)) = image w \<and>
   (\<forall>e w1. beforeApply win32 K H M P pdbPath dryrun w = (Inl e, w1) \<longrightarrow>
      patchImageImpl win32 K H M P pdbPath dryrun w = (Inl e, w1) \<and> image w1 = image w) \<and>
   (\<forall>e. P (image w) = Inl e \<longrightarrow>
      patchImageImpl win32 K H M P pdbPath dryrun w = (Inl e, w)) \<and>
   (\<forall>pe e. P (image w) = Inr pe \<and> collectPatches K pe (image w) = Inl e \<longrightarrow>
      patchImageImpl win32 K H M P pdbPath dryrun w = (Inl e, w)) \<and>
   (\<forall>pe info patches0 sig path e w1.
      P (image w) = Inr pe \<and> collectPatches K pe (image w) = Inr (info, patches0) \<and>
      calculateChecksum H (image w) (length (image w)) (patches_sort patches0) = Some sig \<and>
      pdbPath = Some path \<and> patchPDB win32 K M path info sig dryrun w = (Inl e, w1) \<longrightarrow>
      patchImageImpl win32 K H M P pdbPath dryrun w = (Inl e, w1) \<and> image w1 = image w)"
proof (intro conjI allI impI)
  show "image (snd (beforeApply win32 K H M P pdbPath dryrun w)) = image w"
    by (rule image_beforeApply)
next
  fix e w1
  assume b: "beforeApply win32 K H M P pdbPath dryrun w = (Inl e, w1)"
  then show "patchImageImpl win32 K H M P pdbPath dryrun w = (Inl e, w1)"
    by (simp add: patchImageImpl_def)
  show "image w1 = image w"
    using image_beforeApply[of win32 K H M P pdbPath dryrun w] b by simp
next
  fix e
  assume "P (image w) = Inl e"
  then show "patchImageImpl win32 K H M P pdbPath dryrun w = (Inl e, w)"
    by (simp add: patchImageImpl_def beforeApply_def)
next
  fix pe e
  assume "P (image w) = Inr pe \<and> collectPatches K pe (image w) = Inl e"
  then show "patchImageImpl win32 K H M P pdbPath dryrun w = (Inl e, w)"
    by (simp add: patchImageImpl_def beforeApply_def)
next
  fix pe info patches0 sig path e w1
  assume a: "P (image w) = Inr pe \<and> collectPatches K pe (image w) = Inr (info, patches0) \<and>
      calculateChecksum H (image w) (length (image w)) (patches_sort patches0) = Some sig \<and>
      pdbPath = Some path \<and> patchPDB win32 K M path info sig dryrun w = (Inl e, w1)"
  then show "patchImageImpl win32 K H M P pdbPath dryrun w = (Inl e, w1)"
    by (simp add: patchImageImpl_def beforeApply_def Let_def)
  show "image w1 = image w"
    using image_patchPDB[of win32 K M path info sig dryrun w] a by simp
qed

theorem image_written_by_apply_only_witness:
  "beforeApply False decls_example sum_md5 msf_example tiny_PEFile (Some ''a.pdb'') False
       (world_example image_ok pdb_old) =
     (Inl (InvalidPdb ''unsupported PDB implementation version''),
      (world_example image_ok pdb_old)
        \<lparr>files := (files (world_example image_ok pdb_old))(''a.pdb.tmp'' \<mapsto> [])\<rparr>) \<and>
   patchImageImpl False decls_example sum_md5 msf_example tiny_PEFile (Some ''a.pdb'') False
       (world_example image_ok pdb_old) =
     (Inl (InvalidPdb ''unsupported PDB implementation version''),
      (world_example image_ok pdb_old)
        \<lparr>files := (files (world_example image_ok pdb_old))(''a.pdb.tmp'' \<mapsto> [])\<rparr>) \<and>
   image ((world_example image_ok pdb_old)
        \<lparr>files := (files (world_example image_ok pdb_old))(''a.pdb.tmp'' \<mapsto> [])\<rparr>) = image_ok"
proof -
  let ?w = "world_example image_ok pdb_old"
  let ?w1 = "?w\<lparr>files := (files ?w)(''a.pdb.tmp'' \<mapsto> [])\<rparr>"
  have i: "image ?w = image_ok" by (simp add: world_example_def)
  have p: "tiny_PEFile image_ok = Inr (tiny_pe image_ok)"
    by (simp add: tiny_PEFile_def image_ok_def)
  have c: "\<exists>info ps. collectPatches decls_example (tiny_pe image_ok) image_ok = Inr (info, ps) \<and>
      patches_sort ps =
        [\<lparr>offset = 4, length_bytes = 4, data = Timestamp,
           name = ''IMAGE_FILE_HEADER.TimeDateStamp''\<rparr>,
         \<lparr>offset = 8, length_bytes = 4, data = Timestamp, name = ''OptionalHeader.CheckSum''\<rparr>,
         \<lparr>offset = 12, length_bytes = 4, data = Timestamp,
           name = ''IMAGE_DEBUG_DIRECTORY.TimeDateStamp''\<rparr>,
         \<lparr>offset = 40, length_bytes = 16, data = PdbSignature, name = ''PDB Signature''\<rparr>,
         \<lparr>offset = 56, length_bytes = 4, data = PdbAge, name = ''PDB Age''\<rparr>]"
    by (simp add: collectPatches_def patchOptionalHeader_def patchDebugDataDirectories_def
        tiny_pe_def decls_example_def tiny_debug_dirs_def image_ok_def read_u32_def
        u32_of_bytes_def patches_add_def Let_def codeviewEntries_def patches_sort_def)
  then obtain info ps where c1: "collectPatches decls_example (tiny_pe image_ok) image_ok = Inr (info, ps)"
    and c2: "patches_sort ps =
        [\<lparr>offset = 4, length_bytes = 4, data = Timestamp,
           name = ''IMAGE_FILE_HEADER.TimeDateStamp''\<rparr>,
         \<lparr>offset = 8, length_bytes = 4, data = Timestamp, name = ''OptionalHeader.CheckSum''\<rparr>,
         \<lparr>offset = 12, length_bytes = 4, data = Timestamp,
           name = ''IMAGE_DEBUG_DIRECTORY.TimeDateStamp''\<rparr>,
         \<lparr>offset = 40, length_bytes = 16, data = PdbSignature, name = ''PDB Signature''\<rparr>,
         \<lparr>offset = 56, length_bytes = 4, data = PdbAge, name = ''PDB Age''\<rparr>]"
    by blast
  have k: "\<exists>sig. calculateChecksum sum_md5 image_ok (length image_ok) (patches_sort ps) = Some sig"
    unfolding c2
    by (simp add: calculateChecksum_def mem_read_def size_sub_def size_add_def SIZE_WIDTH_def
        image_ok_def sum_md5_def)
  then obtain sig where k1: "calculateChecksum sum_md5 image_ok (length image_ok) (patches_sort ps) = Some sig"
    by blast
  have f: "patchPDB False decls_example msf_example ''a.pdb'' info sig False ?w =
     (Inl (InvalidPdb ''unsupported PDB implementation version''), ?w1)"
    by (simp add: patchPDB_def openFile_readExisting_def openFile_writeEmpty_def Let_def
      world_example_def msf_example_def readPdbHeader_def getStream_def replaceStream_def
      decls_example_def getTempPdbPath_def pdb_old_def PdbStream70_le_def u32_of_bytes_def)
  have b: "beforeApply False decls_example sum_md5 msf_example tiny_PEFile (Some ''a.pdb'') False ?w =
     (Inl (InvalidPdb ''unsupported PDB implementation version''), ?w1)"
    by (simp add: beforeApply_def Let_def i p c1 k1 f)
  from image_written_by_apply_only
    [of False decls_example sum_md5 msf_example tiny_PEFile "Some ''a.pdb''" False ?w] b
  have "patchImageImpl False decls_example sum_md5 msf_example tiny_PEFile (Some ''a.pdb'') False ?w =
     (Inl (InvalidPdb ''unsupported PDB implementation version''), ?w1) \<and> image ?w1 = image ?w"
    by blast
  then show ?thesis using b i by simp
qed

subsection \<open>Dry runs\<close>

text \<open>
  What a dry run does in either build: the image is left as it is, and of the files only the
  temporary one can change.  Compiled without \<^verbatim>\<open>_WIN32\<close>, a dry run of \<^verbatim>\<open>patchPDB\<close>
  that returns has removed the temporary file; compiled with it, a run that returns leaves
  the temporary file behind.
\<close>

lemma dry_run_keeps_image:
  "image (snd (patchImageImpl win32 K H M P pdbPath True w)) = image w"
proof -
  obtain r w1 where b: "beforeApply win32 K H M P pdbPath True w = (r, w1)"
    by (cases "beforeApply win32 K H M P pdbPath True w")
  have i: "image w1 = image w" using image_beforeApply[of win32 K H M P pdbPath True w] b by simp
  show ?thesis
  proof (cases r)
    case (Inl e) thus ?thesis using b i by (simp add: patchImageImpl_def)
  next
    case (Inr ps)
    obtain patches sg where ps: "ps = (patches, sg)" by (cases ps)
    have "snd (patches_apply (resolve K sg) True patches (image w1)) = image w1"
      by (simp add: patches_apply_def applyLoop_dryRun)
    thus ?thesis using b i Inr ps
      by (auto simp: patchImageImpl_def split: prod.splits option.splits)
  qed
qed

lemma files_patchImageImpl:
  "files (snd (patchImageImpl win32 K H M P (Some path) dryrun w)) p = files w p \<or>
   p = getTempPdbPath path"
proof -
  have "files (snd (beforeApply win32 K H M P (Some path) dryrun w)) p = files w p \<or>
        p = getTempPdbPath path"
    using files_patchPDB[of win32 K M path _ _ dryrun w p]
    by (auto simp: beforeApply_def Let_def split: sum.splits option.splits prod.splits)
        (metis snd_conv)+
  thus ?thesis
    by (auto simp: patchImageImpl_def split: sum.splits option.splits prod.splits)
qed

lemma dry_run_removes_temporary_file:
  "fst (patchPDB False K M pdbPath pdbInfo signature True w) = Inr () \<Longrightarrow>
   files (snd (patchPDB False K M pdbPath pdbInfo signature True w)) (getTempPdbPath pdbPath) =
     None"
  by (auto simp: patchPDB_def openFile_readExisting_def openFile_writeEmpty_def Let_def
      commitPdb_def remove_file_def split: option.splits sum.splits if_splits)

lemma dry_run_win32_keeps_temporary_file:
  "fst (patchPDB True K M pdbPath pdbInfo signature dryrun w) = Inr () \<Longrightarrow>
   files (snd (patchPDB True K M pdbPath pdbInfo signature dryrun w)) (getTempPdbPath pdbPath) \<noteq>
     None"
  by (auto simp: patchPDB_def openFile_readExisting_def openFile_writeEmpty_def Let_def
      commitPdb_def remove_file_def split: option.splits sum.splits if_splits)

subsection \<open>Patching twice\<close>

lemma mem_write_same:
  assumes "take n (drop pos buf) = take n bs"
  shows "mem_write buf pos (take n bs) = buf"
proof -
  have "take (length (take n bs)) (drop pos buf) = take n bs"
  proof -
    have "take (length (take n bs)) (drop pos buf) = take (length (take n bs)) (take n (drop pos buf))"
      by (simp add: min_def)
    also have "\<dots> = take (length (take n bs)) (take n bs)" using assms by simp
    also have "\<dots> = take n bs" by (cases "length bs \<le> n") (simp_all add: min_def)
    finally show ?thesis .
  qed
  then have "take n bs @ drop (pos + length (take n bs)) buf = drop pos buf"
    by (metis append_take_drop_id drop_drop add.commute)
  then show ?thesis by (simp add: mem_write_def)
qed

lemma applyLoop_holds_id:
  "\<forall>p \<in> set ps. holds V buf p \<Longrightarrow> snd (applyLoop V dryRun applied ps buf) = buf"
proof (induction ps arbitrary: applied)
  case Nil
  then show ?case by simp
next
  case (Cons p ps)
  from Cons.prems have "holds V buf p" by simp
  then have "mem_write buf (offset p) (take (length_bytes p) (V (data p))) = buf"
    unfolding holds_def by (rule mem_write_same)
  moreover have "snd (applyLoop V dryRun (p # applied) ps buf) = buf"
    using Cons.prems by (intro Cons.IH) simp
  ultimately show ?case by (cases dryRun) simp_all
qed

lemma fst_applyLoop_length:
  "length buf = length buf2 \<Longrightarrow>
   fst (applyLoop V d1 applied ps buf) = fst (applyLoop V d2 applied ps buf2)"
proof (induction ps arbitrary: applied buf buf2)
  case Nil
  then show ?case by simp
next
  case (Cons p ps)
  show ?case
  proof (cases "length buf < offset p + length_bytes p \<or> (\<exists>q \<in> set applied. overlaps p q)")
    case True
    then show ?thesis using Cons.prems by simp
  next
    case False
    then have fits: "offset p + length (take (length_bytes p) (V (data p))) \<le> length buf"
      by (simp add: min_def)
    let ?b = "mem_write buf (offset p) (take (length_bytes p) (V (data p)))"
    let ?b2 = "mem_write buf2 (offset p) (take (length_bytes p) (V (data p)))"
    have l: "length ?b = length buf" by (rule length_mem_write[OF fits])
    have l2: "length ?b2 = length buf2" using fits Cons.prems by (intro length_mem_write) simp
    have "fst (applyLoop V d1 (p # applied) ps (if d1 then buf else ?b)) =
          fst (applyLoop V d2 (p # applied) ps (if d2 then buf2 else ?b2))"
      by (rule Cons.IH) (simp add: l l2 Cons.prems)
    then show ?thesis using False Cons.prems by simp
  qed
qed

lemma take_drop_eq:
  assumes "length b1 = length b"
    and "\<forall>i. a \<le> i \<and> i < a + n \<and> i < length b \<longrightarrow> b1 ! i = b ! i"
  shows "take n (drop a b1) = take n (drop a b)"
proof (rule nth_equalityI)
  show "length (take n (drop a b1)) = length (take n (drop a b))" using assms(1) by simp
next
  fix i assume "i < length (take n (drop a b1))"
  then have i: "i < n" "a + i < length b" using assms(1) by auto
  then have "b1 ! (a + i) = b ! (a + i)" using assms(2) by simp
  then show "take n (drop a b1) ! i = take n (drop a b) ! i"
    using i assms(1) by simp
qed

lemma take_drop_mem_write_disjoint:
  assumes "pos + length bs \<le> length buf" and "a + n \<le> pos \<or> pos + length bs \<le> a"
  shows "take n (drop a (mem_write buf pos bs)) = take n (drop a buf)"
proof (rule take_drop_eq)
  show "length (mem_write buf pos bs) = length buf" by (rule length_mem_write[OF assms(1)])
  show "\<forall>i. a \<le> i \<and> i < a + n \<and> i < length buf \<longrightarrow> mem_write buf pos bs ! i = buf ! i"
  proof (intro allI impI)
    fix i assume i: "a \<le> i \<and> i < a + n \<and> i < length buf"
    then have "\<not> (pos \<le> i \<and> i < pos + length bs)" using assms(2) by auto
    with i show "mem_write buf pos bs ! i = buf ! i"
      by (simp only: nth_mem_write[OF assms(1)] if_False)
  qed
qed

lemma take_drop_mem_write_same:
  assumes "pos + length bs \<le> length buf"
  shows "take (length bs) (drop pos (mem_write buf pos bs)) = bs"
proof -
  have "pos \<le> length buf" using assms by simp
  then show ?thesis by (simp add: mem_write_def)
qed

lemma applyLoop_in_range:
  "applyLoop V d applied ps buf = (None, buf') \<Longrightarrow>
   \<forall>p \<in> set ps. offset p + length_bytes p \<le> length buf"
proof (induction ps arbitrary: applied buf)
  case Nil
  then show ?case by simp
next
  case (Cons p ps)
  from Cons.prems have ok: "\<not> (length buf < offset p + length_bytes p \<or>
      (\<exists>q \<in> set applied. overlaps p q))"
    by (auto split: if_splits)
  let ?b = "if d then buf else mem_write buf (offset p) (take (length_bytes p) (V (data p)))"
  have fits: "offset p + length (take (length_bytes p) (V (data p))) \<le> length buf"
    using ok by (simp add: min_def)
  have l: "length ?b = length buf" by (simp add: length_mem_write[OF fits])
  from Cons.prems ok have "applyLoop V d (p # applied) ps ?b = (None, buf')" by simp
  from Cons.IH[OF this] l ok show ?case by simp
qed

lemma applyLoop_establishes:
  assumes "applyLoop V False applied ps buf = (None, buf')"
    and "\<forall>q \<in> set applied. holds V buf q"
    and "\<forall>p \<in> set ps. length_bytes p \<le> length (V (data p))"
  shows "\<forall>p \<in> set ps \<union> set applied. holds V buf' p"
  using assms
proof (induction ps arbitrary: applied buf)
  case Nil
  then show ?case by simp
next
  case (Cons p ps)
  from Cons.prems(1) have inr: "offset p + length_bytes p \<le> length buf"
    and nov: "\<forall>q \<in> set applied. \<not> overlaps p q"
    by (auto split: if_splits)
  let ?bs = "take (length_bytes p) (V (data p))"
  let ?b = "mem_write buf (offset p) ?bs"
  have len: "length ?bs = length_bytes p" using Cons.prems(3) by simp
  have fits: "offset p + length ?bs \<le> length buf" using inr len by simp
  from Cons.prems(1) inr nov have step: "applyLoop V False (p # applied) ps ?b = (None, buf')"
    by (auto split: if_splits)
  have hp: "holds V ?b p"
    using take_drop_mem_write_same[OF fits] len by (simp add: holds_def)
  have hq: "holds V ?b q" if q: "q \<in> set applied" for q
  proof -
    from nov q have "\<not> overlaps p q" by simp
    then have "offset q + length_bytes q \<le> offset p \<or> offset p + length ?bs \<le> offset q"
      using len by (auto simp: overlaps_def)
    from take_drop_mem_write_disjoint[OF fits this] Cons.prems(2) q
    show ?thesis by (simp add: holds_def)
  qed
  have "\<forall>q \<in> set (p # applied). holds V ?b q" using hp hq by simp
  moreover have "\<forall>p \<in> set ps. length_bytes p \<le> length (V (data p))" using Cons.prems(3) by simp
  ultimately have "\<forall>x \<in> set ps \<union> set (p # applied). holds V buf' x"
    by (rule Cons.IH[OF step])
  then show ?case by auto
qed

lemma checksumLoop_sorted:
  assumes "checksumLoop H buf ps pos ctx \<noteq> None"
    and "\<forall>p \<in> set ps. offset p + length_bytes p \<le> length buf"
    and "length buf < SIZE_WIDTH" and "pos \<le> length buf"
  shows "sorted_disjoint pos ps (length buf)"
  using assms
proof (induction ps arbitrary: pos ctx)
  case Nil
  then show ?case by simp
next
  case (Cons p ps)
  from Cons.prems(2) have e: "offset p + length_bytes p \<le> length buf" by simp
  have le: "pos \<le> offset p"
  proof (rule ccontr)
    assume "\<not> pos \<le> offset p"
    then have "mem_read buf pos (size_sub (offset p) pos) = None"
      using Cons.prems(3) by (simp add: mem_read_def size_sub_def)
    with Cons.prems(1) show False by simp
  qed
  have ad: "size_add (offset p) (length_bytes p) = offset p + length_bytes p"
    using e Cons.prems(3) by (simp add: size_add_def)
  from Cons.prems(1) obtain bs where
    "checksumLoop H buf ps (offset p + length_bytes p) (md5_update H ctx bs) \<noteq> None"
    by (auto simp: ad split: option.splits)
  from Cons.IH[OF this _ Cons.prems(3) e] Cons.prems(2) le show ?case by simp
qed

lemma read_u32_untouched:
  assumes "length b1 = length b"
    and "\<forall>i. i < length b \<and> \<not> in_patch ps i \<longrightarrow> b1 ! i = b ! i"
    and "untouched ps a"
  shows "read_u32 b1 a = read_u32 b a"
proof -
  have "take 4 (drop a b1) = take 4 (drop a b)"
  proof (rule take_drop_eq[OF assms(1)], intro allI impI)
    fix i assume i: "a \<le> i \<and> i < a + 4 \<and> i < length b"
    then have "i = a \<or> i = a + 1 \<or> i = a + 2 \<or> i = a + 3" by arith
    then have "\<not> in_patch ps i" using assms(3) by (auto simp: untouched_def)
    with i assms(2) show "b1 ! i = b ! i" by simp
  qed
  then show ?thesis by (simp add: read_u32_def)
qed

lemma u32_of_bytes_PEFile_timestamp: "u32_of_bytes (u32_bytes PEFile_timestamp) = PEFile_timestamp"
  unfolding u32_bytes_PEFile_timestamp by (simp add: u32_of_bytes_def PEFile_timestamp_def)

lemma read_u32_stamped:
  assumes "holds (resolve K sig) b1 (debugTimestampPatch d)"
  shows "read_u32 b1 (IMAGE_DEBUG_DIRECTORY_ptr.TimeDateStamp d) = PEFile_timestamp"
proof -
  have "take 4 (drop (IMAGE_DEBUG_DIRECTORY_ptr.TimeDateStamp d) b1) = u32_bytes PEFile_timestamp"
    using assms by (simp add: holds_def debugTimestampPatch_def resolve_def u32_bytes_def)
  then show ?thesis by (simp add: read_u32_def u32_of_bytes_PEFile_timestamp)
qed

lemma debugDirLoop_Inr:
  "debugDirLoop K pe buf dirs patches cvInfo = Inr (patches', cvInfo') \<Longrightarrow>
   patches' = patches @ map debugTimestampPatch (stampedEntries buf dirs)"
proof (induction dirs arbitrary: patches cvInfo)
  case Nil
  then show ?case by (simp add: stampedEntries_def)
next
  case (Cons d dirs)
  let ?ps1 = "if read_u32 buf (IMAGE_DEBUG_DIRECTORY_ptr.TimeDateStamp d) \<noteq> 0
         then patches_add patches (IMAGE_DEBUG_DIRECTORY_ptr.TimeDateStamp d) 4 Timestamp
                ''IMAGE_DEBUG_DIRECTORY.TimeDateStamp''
         else patches"
  from Cons.prems obtain cv1 where "debugDirLoop K pe buf dirs ?ps1 cv1 = Inr (patches', cvInfo')"
    by (auto simp: Let_def split: if_splits)
  from Cons.IH[OF this] show ?case
    by (simp add: stampedEntries_def patches_add_def debugTimestampPatch_def)
qed

lemma debugDirLoop_cong:
  assumes "\<forall>d \<in> set dirs.
      read_u32 b1 (Type d) = read_u32 b (Type d) \<and>
      read_u32 b1 (PointerToRawData d) = read_u32 b (PointerToRawData d) \<and>
      (read_u32 b1 (IMAGE_DEBUG_DIRECTORY_ptr.TimeDateStamp d) \<noteq> 0) =
        (read_u32 b (IMAGE_DEBUG_DIRECTORY_ptr.TimeDateStamp d) \<noteq> 0)"
  shows "debugDirLoop K pe b1 dirs patches cvInfo = debugDirLoop K pe b dirs patches cvInfo"
  using assms
proof (induction dirs arbitrary: patches cvInfo)
  case Nil
  then show ?case by simp
next
  case (Cons d dirs)
  from Cons.prems have d: "read_u32 b1 (Type d) = read_u32 b (Type d)"
      "read_u32 b1 (PointerToRawData d) = read_u32 b (PointerToRawData d)"
      "(read_u32 b1 (IMAGE_DEBUG_DIRECTORY_ptr.TimeDateStamp d) = 0) =
        (read_u32 b (IMAGE_DEBUG_DIRECTORY_ptr.TimeDateStamp d) = 0)"
    and rest: "\<forall>d \<in> set dirs.
      read_u32 b1 (Type d) = read_u32 b (Type d) \<and>
      read_u32 b1 (PointerToRawData d) = read_u32 b (PointerToRawData d) \<and>
      (read_u32 b1 (IMAGE_DEBUG_DIRECTORY_ptr.TimeDateStamp d) \<noteq> 0) =
        (read_u32 b (IMAGE_DEBUG_DIRECTORY_ptr.TimeDateStamp d) \<noteq> 0)"
    by simp_all
  show ?case by (simp add: d Cons.IH[OF rest] Let_def)
qed

lemma patchDebugDataDirectories_cong:
  assumes dirs: "getDebugDataDirs pe opt = Inr dirs"
    and agree: "\<forall>d \<in> set dirs.
      read_u32 b1 (Type d) = read_u32 b (Type d) \<and>
      read_u32 b1 (PointerToRawData d) = read_u32 b (PointerToRawData d) \<and>
      (read_u32 b1 (IMAGE_DEBUG_DIRECTORY_ptr.TimeDateStamp d) \<noteq> 0) =
        (read_u32 b (IMAGE_DEBUG_DIRECTORY_ptr.TimeDateStamp d) \<noteq> 0)"
    and cv: "\<forall>c cs. codeviewEntries K b dirs = c # cs \<longrightarrow>
      read_u32 b1 (CV_INFO_PDB70_ptr.CvSignature
                     (CV_INFO_PDB70_at K (unat (read_u32 b (PointerToRawData c))))) =
      read_u32 b (CV_INFO_PDB70_ptr.CvSignature
                     (CV_INFO_PDB70_at K (unat (read_u32 b (PointerToRawData c)))))"
  shows "patchDebugDataDirectories K pe b1 patches opt =
         patchDebugDataDirectories K pe b patches opt"
proof -
  have loop: "debugDirLoop K pe b1 dirs patches None = debugDirLoop K pe b dirs patches None"
    by (rule debugDirLoop_cong[OF agree])
  show ?thesis
  proof (cases "codeviewEntries K b dirs")
    case Nil
    then show ?thesis
      using dirs loop debugDirLoop_no_codeview[OF Nil, of pe patches None]
      by (simp add: patchDebugDataDirectories_def)
  next
    case (Cons c cs)
    from cv Cons have "read_u32 b1 (CV_INFO_PDB70_ptr.CvSignature
                     (CV_INFO_PDB70_at K (unat (read_u32 b (PointerToRawData c))))) =
      read_u32 b (CV_INFO_PDB70_ptr.CvSignature
                     (CV_INFO_PDB70_at K (unat (read_u32 b (PointerToRawData c)))))"
      by simp
    then show ?thesis
      using dirs loop debugDirLoop_first_codeview[OF Cons, of pe patches]
      by (simp add: patchDebugDataDirectories_def Let_def)
  qed
qed

lemma collectPatches_chosen:
  assumes "collectPatches K pe buf = Inr (info, patches0)" and "chosenHeader K pe opt"
  shows "patchOptionalHeader K pe buf
           [\<lparr>offset = IMAGE_FILE_HEADER_ptr.TimeDateStamp (fileHeader pe), length_bytes = 4,
             data = Timestamp, name = ''IMAGE_FILE_HEADER.TimeDateStamp''\<rparr>] opt = Inr patches0 \<and>
         pdbInfo_of pe opt = Inr info"
  using assms
  by (auto simp: collectPatches_def chosenHeader_def Let_def patches_add_def
      split: if_splits sum.splits)

lemma collectPatches_shape:
  assumes c: "collectPatches K pe buf = Inr (info, patches0)"
    and h: "chosenHeader K pe opt" and d: "getDebugDataDirs pe opt = Inr dirs"
  shows "\<exists>pre cvp. patches0 = pre @ map debugTimestampPatch (stampedEntries buf dirs) @ cvp \<and>
           (\<forall>p \<in> set pre. data p = Timestamp \<and> length_bytes p = 4) \<and>
           (\<forall>p \<in> set cvp. (data p = PdbSignature \<and> length_bytes p = 16) \<or>
                            (data p = PdbAge \<and> length_bytes p = 4))"
proof -
  let ?fh = "\<lparr>offset = IMAGE_FILE_HEADER_ptr.TimeDateStamp (fileHeader pe), length_bytes = 4,
             data = Timestamp, name = ''IMAGE_FILE_HEADER.TimeDateStamp''\<rparr>"
  from collectPatches_chosen[OF c h]
  have o: "patchOptionalHeader K pe buf [?fh] opt = Inr patches0" by simp
  from patchOptionalHeader_Inr[OF o]
  obtain ex :: "IMAGE_EXPORT_DIRECTORY_ptr option" and rs :: "IMAGE_RESOURCE_DIRECTORY_ptr option"
    and pre where dd: "patchDebugDataDirectories K pe buf pre opt = Inr patches0"
    and pre: "pre = [?fh] @
            [\<lparr>offset = CheckSum opt, length_bytes = 4, data = Timestamp,
              name = ''OptionalHeader.CheckSum''\<rparr>] @
            (case ex of None \<Rightarrow> []
             | Some dir \<Rightarrow> [\<lparr>offset = IMAGE_EXPORT_DIRECTORY_ptr.TimeDateStamp dir,
                 length_bytes = 4, data = Timestamp,
                 name = ''IMAGE_EXPORT_DIRECTORY.TimeDateStamp''\<rparr>]) @
            (case rs of None \<Rightarrow> []
             | Some dir \<Rightarrow> [\<lparr>offset = IMAGE_RESOURCE_DIRECTORY_ptr.TimeDateStamp dir,
                 length_bytes = 4, data = Timestamp,
                 name = ''IMAGE_RESOURCE_DIRECTORY.TimeDateStamp''\<rparr>])"
    by blast
  have preok: "\<forall>p \<in> set pre. data p = Timestamp \<and> length_bytes p = 4"
    unfolding pre by (auto split: option.splits)
  from patchDebugDataDirectories_Inr[OF dd] d obtain ps1 cv
    where l: "debugDirLoop K pe buf dirs pre None = Inr (ps1, cv)"
      and p: "patches0 = ps1 \<or>
            (\<exists>a b. patches0 = ps1 @
               [\<lparr>offset = a, length_bytes = 16, data = PdbSignature, name = ''PDB Signature''\<rparr>,
                \<lparr>offset = b, length_bytes = 4, data = PdbAge, name = ''PDB Age''\<rparr>])"
    by auto
  from debugDirLoop_Inr[OF l]
  have ps1: "ps1 = pre @ map debugTimestampPatch (stampedEntries buf dirs)" .
  from p show ?thesis
  proof
    assume "patches0 = ps1"
    then have "patches0 = pre @ map debugTimestampPatch (stampedEntries buf dirs) @ []"
      using ps1 by simp
    with preok show ?thesis by (intro exI[of _ pre] exI[of _ "[]"]) simp
  next
    assume "\<exists>a b. patches0 = ps1 @
               [\<lparr>offset = a, length_bytes = 16, data = PdbSignature, name = ''PDB Signature''\<rparr>,
                \<lparr>offset = b, length_bytes = 4, data = PdbAge, name = ''PDB Age''\<rparr>]"
    then obtain a b where "patches0 = pre @ map debugTimestampPatch (stampedEntries buf dirs) @
               [\<lparr>offset = a, length_bytes = 16, data = PdbSignature, name = ''PDB Signature''\<rparr>,
                \<lparr>offset = b, length_bytes = 4, data = PdbAge, name = ''PDB Age''\<rparr>]"
      using ps1 by auto
    with preok show ?thesis
      by (intro exI[of _ pre] exI[of _ "[\<lparr>offset = a, length_bytes = 16, data = PdbSignature, name = ''PDB Signature''\<rparr>,
                \<lparr>offset = b, length_bytes = 4, data = PdbAge, name = ''PDB Age''\<rparr>]"]) simp
  qed
qed

lemma collectPatches_cong:
  assumes "chosenHeader K pe opt"
    and "\<forall>ps. patchDebugDataDirectories K pe b1 ps opt = patchDebugDataDirectories K pe b ps opt"
  shows "collectPatches K pe b1 = collectPatches K pe b"
  using assms
  by (auto simp: collectPatches_def patchOptionalHeader_def chosenHeader_def Let_def
      split: if_splits sum.splits option.splits)

lemma beforeApply_Inr:
  assumes "beforeApply win32 K H M P pdbPath dryrun w = (Inr (ps, sig), w0)"
    and "P (image w) = Inr pe" and "collectPatches K pe (image w) = Inr (info, patches0)"
  shows "ps = patches_sort patches0 \<and>
         calculateChecksum H (image w) (length (image w)) (patches_sort patches0) = Some sig \<and>
         image w0 = image w"
proof -
  have i: "image w0 = image w"
    using image_beforeApply[of win32 K H M P pdbPath dryrun w] assms(1) by simp
  obtain sig' where k: "calculateChecksum H (image w) (length (image w)) (patches_sort patches0) = Some sig'"
    using assms
    by (cases "calculateChecksum H (image w) (length (image w)) (patches_sort patches0)")
       (auto simp: beforeApply_def Let_def)
  have "ps = patches_sort patches0 \<and> sig = sig'"
    using assms k
    by (cases pdbPath)
       (auto simp: beforeApply_def Let_def split: prod.splits sum.splits)
  with k i show ?thesis by simp
qed

lemma patchImageImpl_Inr:
  assumes "patchImageImpl win32 K H M P pdbPath dryrun w = (Inr (), w1)"
  shows "\<exists>ps sig w0. beforeApply win32 K H M P pdbPath dryrun w = (Inr (ps, sig), w0) \<and>
           patches_apply (resolve K sig) dryrun ps (image w0) = (None, image w1)"
  using assms
  by (auto simp: patchImageImpl_def split: prod.splits sum.splits option.splits)

lemma image_patchImageImpl:
  assumes "beforeApply win32 K H M P pdbPath dryrun w = (Inr (ps, sig), w0)"
  shows "image (snd (patchImageImpl win32 K H M P pdbPath dryrun w)) =
         snd (patches_apply (resolve K sig) dryrun ps (image w0))"
  using assms
  by (auto simp: patchImageImpl_def split: prod.splits sum.splits option.splits)

lemma calculateChecksum_Some:
  assumes "calculateChecksum H buf len ps = Some sig"
  shows "checksumLoop H buf ps 0 (md5_starts H) \<noteq> None \<and> (\<exists>ctx. sig = md5_finish H ctx)"
  using assms by (auto simp: calculateChecksum_def split: option.splits prod.splits)

text \<open>
  C5.  Let a run that is not a dry run succeed on an image, of either optional-header kind.
  Suppose the image is well formed in this sense: \<^verbatim>\<open>PEFile\<close> finds in the patched image
  the pointers it found before, and the members that the collection reads without patching
  them lie outside every patch; and let the digest be 16 bytes long.  Then a second run
  collects the same patches and computes the same checksum; without a PDB path it returns
  normally and leaves the state as it found it; and whatever the PDB path and the dry-run
  flag, it leaves the image byte for byte as the first run left it.
\<close>

theorem patching_twice_changes_nothing:
  assumes first: "patchImageImpl win32 K H M P pdbPath False w = (Inr (), w1)"
    and parse: "P (image w) = Inr pe"
    and reparse: "P (image w1) = Inr pe"
    and hdr: "chosenHeader K pe opt"
    and dirs: "getDebugDataDirs pe opt = Inr dirs"
    and collected: "collectPatches K pe (image w) = Inr (info, patches0)"
    and apart: "\<forall>a \<in> set (readOnlyFields K (image w) dirs). untouched patches0 a"
    and digest: "\<forall>ctx. length (md5_finish H ctx) = 16"
    and size: "length (image w) < SIZE_WIDTH"
  shows "collectPatches K pe (image w1) = Inr (info, patches0) \<and>
         calculateChecksum H (image w1) (length (image w1)) (patches_sort patches0) =
           calculateChecksum H (image w) (length (image w)) (patches_sort patches0) \<and>
         patchImageImpl win32 K H M P None False w1 = (Inr (), w1) \<and>
         (\<forall>win32' pdbPath' dryrun' w'. image w' = image w1 \<longrightarrow>
            image (snd (patchImageImpl win32' K H M P pdbPath' dryrun' w')) = image w1)"
proof -
  let ?b = "image w" and ?b1 = "image w1" and ?ps = "patches_sort patches0"
  from patchImageImpl_Inr[OF first] obtain ps sig w0
    where ba: "beforeApply win32 K H M P pdbPath False w = (Inr (ps, sig), w0)"
      and ap0: "patches_apply (resolve K sig) False ps (image w0) = (None, ?b1)"
    by blast
  from beforeApply_Inr[OF ba parse collected]
  have ps: "ps = ?ps" and ck: "calculateChecksum H ?b (length ?b) ?ps = Some sig"
    and w0: "image w0 = ?b" by simp_all
  let ?V = "resolve K sig"
  have ap: "applyLoop ?V False [] ?ps ?b = (None, ?b1)"
    using ap0 ps w0 by (simp add: patches_apply_def)
  have inr: "\<forall>p \<in> set ?ps. offset p + length_bytes p \<le> length ?b"
    by (rule applyLoop_in_range[OF ap])
  have len1: "length ?b1 = length ?b"
    using length_applyLoop[of ?V False "[]" ?ps ?b] ap by simp
  have frame: "\<forall>i. i < length ?b \<and> \<not> in_patch patches0 i \<longrightarrow> ?b1 ! i = ?b ! i"
  proof (intro allI impI)
    fix i assume i: "i < length ?b \<and> \<not> in_patch patches0 i"
    then have "\<not> in_patch ?ps i" by (simp add: in_patch_sort)
    from applyLoop_frame[OF this, of ?b ?V False "[]"] i ap show "?b1 ! i = ?b ! i" by simp
  qed
  from calculateChecksum_Some[OF ck] digest
  have loop: "checksumLoop H ?b ?ps 0 (md5_starts H) \<noteq> None" and sl: "length sig = 16"
    by auto
  from collectPatches_shape[OF collected hdr dirs] obtain pre cvp
    where shape: "patches0 = pre @ map debugTimestampPatch (stampedEntries ?b dirs) @ cvp"
      and preok: "\<forall>p \<in> set pre. data p = Timestamp \<and> length_bytes p = 4"
      and cvok: "\<forall>p \<in> set cvp. (data p = PdbSignature \<and> length_bytes p = 16) \<or>
                            (data p = PdbAge \<and> length_bytes p = 4)"
    by blast
  have sized: "\<forall>p \<in> set ?ps. length_bytes p \<le> length (?V (data p))"
  proof
    fix p assume "p \<in> set ?ps"
    then have "p \<in> set pre \<or> p \<in> debugTimestampPatch ` set (stampedEntries ?b dirs) \<or> p \<in> set cvp"
      using shape by (auto simp: patches_sort_def)
    then show "length_bytes p \<le> length (?V (data p))"
      using preok cvok sl
      by (auto simp: resolve_def u32_bytes_def debugTimestampPatch_def)
  qed
  have content: "\<forall>p \<in> set ?ps. holds ?V ?b1 p"
    using applyLoop_establishes[OF ap _ sized] by simp
  have sorted: "sorted_disjoint 0 ?ps (length ?b)"
    by (rule checksumLoop_sorted[OF loop inr size]) simp
  have cksame: "calculateChecksum H ?b1 (length ?b1) ?ps = calculateChecksum H ?b (length ?b) ?ps"
  proof -
    have "gaps ?b 0 ?ps (length ?b) = gaps ?b1 0 ?ps (length ?b)"
      using sorted len1 frame by (intro gaps_agree) (simp_all add: in_patch_sort)
    then show ?thesis
      using calculateChecksum_gaps[OF sorted _ size, of ?b H]
        calculateChecksum_gaps[OF sorted _ size, of ?b1 H] len1
      by simp
  qed
  have ro: "read_u32 ?b1 a = read_u32 ?b a" if "a \<in> set (readOnlyFields K ?b dirs)" for a
    using that apart by (intro read_u32_untouched[OF len1 frame]) simp
  have agree: "\<forall>d \<in> set dirs.
      read_u32 ?b1 (Type d) = read_u32 ?b (Type d) \<and>
      read_u32 ?b1 (PointerToRawData d) = read_u32 ?b (PointerToRawData d) \<and>
      (read_u32 ?b1 (IMAGE_DEBUG_DIRECTORY_ptr.TimeDateStamp d) \<noteq> 0) =
        (read_u32 ?b (IMAGE_DEBUG_DIRECTORY_ptr.TimeDateStamp d) \<noteq> 0)"
  proof (intro ballI conjI)
    fix d assume d: "d \<in> set dirs"
    from d show "read_u32 ?b1 (Type d) = read_u32 ?b (Type d)"
      by (intro ro) (auto simp: readOnlyFields_def)
    from d show "read_u32 ?b1 (PointerToRawData d) = read_u32 ?b (PointerToRawData d)"
      by (intro ro) (auto simp: readOnlyFields_def)
    show "(read_u32 ?b1 (IMAGE_DEBUG_DIRECTORY_ptr.TimeDateStamp d) \<noteq> 0) =
        (read_u32 ?b (IMAGE_DEBUG_DIRECTORY_ptr.TimeDateStamp d) \<noteq> 0)"
    proof (cases "read_u32 ?b (IMAGE_DEBUG_DIRECTORY_ptr.TimeDateStamp d) = 0")
      case True
      with d have "IMAGE_DEBUG_DIRECTORY_ptr.TimeDateStamp d \<in> set (readOnlyFields K ?b dirs)"
        by (auto simp: readOnlyFields_def)
      from ro[OF this] True show ?thesis by simp
    next
      case False
      with d have "d \<in> set (stampedEntries ?b dirs)" by (simp add: stampedEntries_def)
      then have "debugTimestampPatch d \<in> set ?ps"
        using shape by (simp add: patches_sort_def)
      with content have "holds ?V ?b1 (debugTimestampPatch d)" by blast
      from read_u32_stamped[OF this] False show ?thesis
        by (simp add: PEFile_timestamp_def)
    qed
  qed
  have cv: "\<forall>c cs. codeviewEntries K ?b dirs = c # cs \<longrightarrow>
      read_u32 ?b1 (CV_INFO_PDB70_ptr.CvSignature
                     (CV_INFO_PDB70_at K (unat (read_u32 ?b (PointerToRawData c))))) =
      read_u32 ?b (CV_INFO_PDB70_ptr.CvSignature
                     (CV_INFO_PDB70_at K (unat (read_u32 ?b (PointerToRawData c)))))"
    by (intro allI impI ro) (simp add: readOnlyFields_def)
  have recollect: "collectPatches K pe ?b1 = Inr (info, patches0)"
    using collectPatches_cong[OF hdr, of ?b1 ?b]
      patchDebugDataDirectories_cong[OF dirs agree cv] collected
    by simp
  have before2: "beforeApply win32' K H M P None dryrun' w' = (Inr (?ps, sig), w')"
    if "image w' = ?b1" for win32' dryrun' w'
    using that reparse recollect cksame ck by (simp add: beforeApply_def Let_def)
  have id2: "snd (applyLoop ?V dryrun' [] ?ps ?b1) = ?b1" for dryrun'
    by (rule applyLoop_holds_id[OF content])
  have ok2: "fst (applyLoop ?V False [] ?ps ?b1) = None"
    using fst_applyLoop_length[OF len1, of ?V False "[]" ?ps False] ap by simp
  have second: "patchImageImpl win32 K H M P None False w1 = (Inr (), w1)"
  proof -
    have "applyLoop ?V False [] ?ps ?b1 = (None, ?b1)"
      using id2[of False] ok2 by (simp add: prod_eq_iff)
    then show ?thesis
      using before2[of w1 win32 False] by (simp add: patchImageImpl_def patches_apply_def)
  qed
  have any: "image (snd (patchImageImpl win32' K H M P pdbPath' dryrun' w')) = ?b1"
    if w': "image w' = ?b1" for win32' pdbPath' dryrun' w'
  proof (cases "beforeApply win32' K H M P pdbPath' dryrun' w'")
    case (Pair r w0')
    have i0: "image w0' = ?b1"
      using image_beforeApply[of win32' K H M P pdbPath' dryrun' w'] Pair w' by simp
    show ?thesis
    proof (cases r)
      case (Inl e)
      with Pair i0 show ?thesis by (simp add: patchImageImpl_def)
    next
      case (Inr x)
      obtain ps' sig' where x: "x = (ps', sig')" by (cases x)
      from Pair Inr x have b: "beforeApply win32' K H M P pdbPath' dryrun' w' = (Inr (ps', sig'), w0')"
        by simp
      have "ps' = ?ps \<and> calculateChecksum H (image w') (length (image w')) ?ps = Some sig'"
        using beforeApply_Inr[OF b, of pe info patches0] reparse recollect w' by simp
      then have e: "ps' = ?ps" "sig' = sig" using w' cksame ck by simp_all
      from image_patchImageImpl[OF b] e i0 id2[of dryrun'] show ?thesis
        by (simp add: patches_apply_def)
    qed
  qed
  from recollect cksame second any show ?thesis by blast
qed

theorem patching_twice_changes_nothing_witness:
  "patchImageImpl False decls_example sum_md5 msf_example tiny_PEFile None False
       (world_example image_ok pdb_good) =
     (Inr (), world_example image_patched pdb_good) \<and>
   tiny_PEFile image_patched = tiny_PEFile image_ok \<and>
   patchImageImpl False decls_example sum_md5 msf_example tiny_PEFile None False
       (world_example image_patched pdb_good) =
     (Inr (), world_example image_patched pdb_good) \<and>
   image (snd (patchImageImpl True decls_example sum_md5 msf_example tiny_PEFile
                 (Some ''a.pdb'') False (world_example image_patched pdb_good))) =
     image_patched"
proof -
  let ?w = "world_example image_ok pdb_good" and ?w1 = "world_example image_patched pdb_good"
  let ?L = "[\<lparr>offset = 4, length_bytes = 4, data = Timestamp,
          name = ''IMAGE_FILE_HEADER.TimeDateStamp''\<rparr>,
        \<lparr>offset = 8, length_bytes = 4, data = Timestamp, name = ''OptionalHeader.CheckSum''\<rparr>,
        \<lparr>offset = 12, length_bytes = 4, data = Timestamp,
          name = ''IMAGE_DEBUG_DIRECTORY.TimeDateStamp''\<rparr>,
        \<lparr>offset = 40, length_bytes = 16, data = PdbSignature, name = ''PDB Signature''\<rparr>,
        \<lparr>offset = 56, length_bytes = 4, data = PdbAge, name = ''PDB Age''\<rparr>]"
  have i: "image ?w = image_ok" "image ?w1 = image_patched" by (simp_all add: world_example_def)
  have p: "tiny_PEFile image_ok = Inr (tiny_pe image_ok)"
    by (simp add: tiny_PEFile_def image_ok_def)
  have pe: "tiny_pe image_patched = tiny_pe image_ok"
    by (simp add: tiny_pe_def image_ok_def image_patched_def codeviewEntries_def
        tiny_debug_dirs_def decls_example_def read_u32_def u32_of_bytes_def)
  have p1: "tiny_PEFile image_patched = Inr (tiny_pe image_ok)"
    using pe by (simp add: tiny_PEFile_def image_patched_def)
  have c: "collectPatches decls_example (tiny_pe image_ok) image_ok = Inr (Some cv_ptr_example, ?L)"
    by (simp add: collectPatches_def patchOptionalHeader_def patchDebugDataDirectories_def
        tiny_pe_def decls_example_def tiny_debug_dirs_def image_ok_def read_u32_def
        u32_of_bytes_def patches_add_def Let_def codeviewEntries_def cv_ptr_example_def)
  have s: "patches_sort ?L = ?L" by (simp add: patches_sort_def)
  have k: "calculateChecksum sum_md5 image_ok (length image_ok) ?L =
             Some [34, 34, 34, 34, 34, 34, 34, 34, 34, 34, 34, 34, 34, 34, 34, 34]"
    by (simp add: calculateChecksum_def mem_read_def size_sub_def size_add_def SIZE_WIDTH_def
        image_ok_def sum_md5_def)
  have b: "beforeApply False decls_example sum_md5 msf_example tiny_PEFile None False ?w =
             (Inr (?L, [34, 34, 34, 34, 34, 34, 34, 34, 34, 34, 34, 34, 34, 34, 34, 34]), ?w)"
    by (simp add: beforeApply_def Let_def i p c s k)
  have a: "patches_apply
             (resolve decls_example [34, 34, 34, 34, 34, 34, 34, 34, 34, 34, 34, 34, 34, 34, 34, 34])
             False ?L image_ok = (None, image_patched)"
    by (simp add: patches_apply_def resolve_def overlaps_def mem_write_def image_ok_def
        image_patched_def decls_example_def u32_bytes_def PEFile_timestamp_def drop_bit_eq_div)
  have first: "patchImageImpl False decls_example sum_md5 msf_example tiny_PEFile None False ?w =
                 (Inr (), ?w1)"
    by (simp add: patchImageImpl_def b a i) (simp add: world_example_def)
  have h: "chosenHeader decls_example (tiny_pe image_ok) \<lparr>CheckSum = 8\<rparr>"
    by (simp add: chosenHeader_def tiny_pe_def decls_example_def image_ok_def)
  have d: "getDebugDataDirs (tiny_pe image_ok) \<lparr>CheckSum = 8\<rparr> = Inr tiny_debug_dirs"
    by (simp add: tiny_pe_def)
  have r: "\<forall>a \<in> set (readOnlyFields decls_example image_ok tiny_debug_dirs). untouched ?L a"
    by (simp add: readOnlyFields_def tiny_debug_dirs_def codeviewEntries_def decls_example_def
        image_ok_def read_u32_def u32_of_bytes_def untouched_def in_patch_def)
  have g: "\<forall>ctx. length (md5_finish sum_md5 ctx) = 16" by (simp add: sum_md5_def)
  have z: "length image_ok < SIZE_WIDTH" by (simp add: image_ok_def SIZE_WIDTH_def)
  note t = patching_twice_changes_nothing
    [OF first, of "tiny_pe image_ok" "\<lparr>CheckSum = 8\<rparr>" tiny_debug_dirs "Some cv_ptr_example" ?L,
     unfolded i, OF p p1 h d c r g z]
  from t have 2: "patchImageImpl False decls_example sum_md5 msf_example tiny_PEFile None False ?w1 =
                 (Inr (), ?w1)" by blast
  from t i have 3: "image (snd (patchImageImpl True decls_example sum_md5 msf_example tiny_PEFile
                 (Some ''a.pdb'') False ?w1)) = image_patched" by blast
  from first p p1 2 3 show ?thesis by simp
qed

subsection \<open>The time stamp written\<close>

lemma applyLoop_establishes_fitting:
  assumes "applyLoop V False applied ps buf = (None, buf')"
    and "\<forall>q \<in> set applied. length_bytes q \<le> length (V (data q)) \<longrightarrow> holds V buf q"
  shows "\<forall>p \<in> set ps \<union> set applied. length_bytes p \<le> length (V (data p)) \<longrightarrow> holds V buf' p"
  using assms
proof (induction ps arbitrary: applied buf)
  case Nil
  then show ?case by simp
next
  case (Cons p ps)
  from Cons.prems(1) have inr: "offset p + length_bytes p \<le> length buf"
    and nov: "\<forall>q \<in> set applied. \<not> overlaps p q"
    by (auto split: if_splits)
  let ?bs = "take (length_bytes p) (V (data p))"
  let ?b = "mem_write buf (offset p) ?bs"
  have le: "length ?bs \<le> length_bytes p" by simp
  have fits: "offset p + length ?bs \<le> length buf" using inr le by arith
  from Cons.prems(1) inr nov have step: "applyLoop V False (p # applied) ps ?b = (None, buf')"
    by (auto split: if_splits)
  have hp: "holds V ?b p" if "length_bytes p \<le> length (V (data p))"
  proof -
    have "length ?bs = length_bytes p" using that by simp
    then show ?thesis using take_drop_mem_write_same[OF fits] by (simp add: holds_def)
  qed
  have hq: "holds V ?b q" if q: "q \<in> set applied" and f: "length_bytes q \<le> length (V (data q))" for q
  proof -
    from nov q have "\<not> overlaps p q" by simp
    then have "offset q + length_bytes q \<le> offset p \<or> offset p + length ?bs \<le> offset q"
      using le
      by (cases "length_bytes q = 0") (auto simp: overlaps_def)
    from take_drop_mem_write_disjoint[OF fits this] Cons.prems(2) q f
    show ?thesis by (simp add: holds_def)
  qed
  have "\<forall>q \<in> set (p # applied). length_bytes q \<le> length (V (data q)) \<longrightarrow> holds V ?b q"
    using hp hq by simp
  from Cons.IH[OF step this] show ?case by auto
qed

lemma beforeApply_collected:
  assumes "beforeApply win32 K H M P pdbPath dryrun w = (Inr (ps, sig), w0)"
  shows "\<exists>pe info patches0. P (image w) = Inr pe \<and>
           collectPatches K pe (image w) = Inr (info, patches0)"
proof (cases "P (image w)")
  case (Inl e)
  with assms show ?thesis by (simp add: beforeApply_def Let_def)
next
  case (Inr pe)
  show ?thesis
  proof (cases "collectPatches K pe (image w)")
    case (Inl e)
    with assms Inr show ?thesis by (simp add: beforeApply_def Let_def)
  next
    case r: (Inr x)
    obtain info patches0 where "x = (info, patches0)" by (cases x)
    with r Inr show ?thesis by simp
  qed
qed

text \<open>
  C8.  After a run of \<^verbatim>\<open>patchImageImpl\<close> that is not a dry run and returns, every
  patch collected under one of the four \<^verbatim>\<open>TimeDateStamp\<close> names points to
  \<^verbatim>\<open>pe.timestamp\<close> and is four bytes long, and the image holds at its offset the four
  bytes of the constant: every patched time stamp reads as the same value, which is not zero
  and is the number of seconds from Jan 1, 1970 to Jan 1, 2010 (14610 days).  The
  \<^verbatim>\<open>TimeDateStamp\<close> of the file header is always among them.
\<close>

theorem timestamp_patches_write_epoch:
  assumes "patchImageImpl win32 K H M P pdbPath False w = (Inr (), w')"
  shows "\<exists>pe info patches.
           P (image w) = Inr pe \<and> collectPatches K pe (image w) = Inr (info, patches) \<and>
           (\<forall>p \<in> set patches. name p \<in> set timestampNames \<longrightarrow>
              data p = Timestamp \<and> length_bytes p = 4 \<and>
              take 4 (drop (offset p) (image w')) = [0, 59, 61, 75] \<and>
              read_u32 (image w') (offset p) = PEFile_timestamp) \<and>
           read_u32 (image w') (IMAGE_FILE_HEADER_ptr.TimeDateStamp (fileHeader pe)) =
             PEFile_timestamp \<and>
           PEFile_timestamp \<noteq> 0 \<and>
           unat PEFile_timestamp = (40 * 365 + 10) * 86400"
proof -
  from patchImageImpl_Inr[OF assms] obtain ps sig w0
    where b: "beforeApply win32 K H M P pdbPath False w = (Inr (ps, sig), w0)"
      and a: "patches_apply (resolve K sig) False ps (image w0) = (None, image w')"
    by blast
  from beforeApply_collected[OF b] obtain pe info patches
    where parse: "P (image w) = Inr pe"
      and coll: "collectPatches K pe (image w) = Inr (info, patches)"
    by blast
  from beforeApply_Inr[OF b parse coll] have ps: "ps = patches_sort patches" by simp
  let ?fh = "\<lparr>offset = IMAGE_FILE_HEADER_ptr.TimeDateStamp (fileHeader pe), length_bytes = 4,
         data = Timestamp, name = ''IMAGE_FILE_HEADER.TimeDateStamp''\<rparr>"
  from coll obtain opt where o: "patchOptionalHeader K pe (image w) [?fh] opt = Inr patches"
    by (rule collectPatches_cases)
  have "\<forall>p \<in> set [?fh]. timestampPatchOk p" by (simp add: timestampPatchOk_def)
  from patchOptionalHeader_timestampPatchOk[OF o this]
  have ok: "\<forall>p \<in> set patches. timestampPatchOk p" .
  have fh: "?fh \<in> set patches" using patchOptionalHeader_keeps[OF o] by simp
  from a have "applyLoop (resolve K sig) False [] ps (image w0) = (None, image w')"
    by (simp add: patches_apply_def)
  from applyLoop_establishes_fitting[OF this]
  have est: "\<forall>p \<in> set patches.
      length_bytes p \<le> length (resolve K sig (data p)) \<longrightarrow> holds (resolve K sig) (image w') p"
    by (simp add: ps patches_sort_def)
  have 1: "data p = Timestamp \<and> length_bytes p = 4 \<and>
           take 4 (drop (offset p) (image w')) = [0, 59, 61, 75] \<and>
           read_u32 (image w') (offset p) = PEFile_timestamp"
    if p: "p \<in> set patches" and n: "name p \<in> set timestampNames" for p
  proof -
    from ok p n have d: "data p = Timestamp" and l: "length_bytes p = 4"
      by (simp_all add: timestampPatchOk_def)
    have r: "resolve K sig (data p) = [0, 59, 61, 75]"
      using d u32_bytes_PEFile_timestamp by (simp add: resolve_def)
    from est p l r have "holds (resolve K sig) (image w') p" by simp
    then have t: "take 4 (drop (offset p) (image w')) = [0, 59, 61, 75]"
      using l r by (simp add: holds_def)
    have "read_u32 (image w') (offset p) = u32_of_bytes (u32_bytes PEFile_timestamp)"
      using t u32_bytes_PEFile_timestamp by (simp add: read_u32_def)
    with d l t show ?thesis by (simp add: u32_of_bytes_PEFile_timestamp)
  qed
  have 2: "read_u32 (image w') (IMAGE_FILE_HEADER_ptr.TimeDateStamp (fileHeader pe)) =
             PEFile_timestamp"
    using 1[OF fh] by (simp add: timestampNames_def)
  have 3: "PEFile_timestamp \<noteq> 0" by (simp add: PEFile_timestamp_def)
  have 4: "unat PEFile_timestamp = (40 * 365 + 10) * 86400" by (simp add: PEFile_timestamp_def)
  show ?thesis using parse coll 1 2 3 4 by blast
qed

theorem timestamp_patches_write_epoch_witness:
  "patchImageImpl False decls_example sum_md5 msf_example tiny_PEFile None False
       (world_example image_ok pdb_good) =
     (Inr (), world_example image_patched pdb_good) \<and>
   collectPatches decls_example (tiny_pe image_ok) image_ok =
     Inr (Some cv_ptr_example,
       [\<lparr>offset = 4, length_bytes = 4, data = Timestamp,
          name = ''IMAGE_FILE_HEADER.TimeDateStamp''\<rparr>,
        \<lparr>offset = 8, length_bytes = 4, data = Timestamp, name = ''OptionalHeader.CheckSum''\<rparr>,
        \<lparr>offset = 12, length_bytes = 4, data = Timestamp,
          name = ''IMAGE_DEBUG_DIRECTORY.TimeDateStamp''\<rparr>,
        \<lparr>offset = 40, length_bytes = 16, data = PdbSignature, name = ''PDB Signature''\<rparr>,
        \<lparr>offset = 56, length_bytes = 4, data = PdbAge, name = ''PDB Age''\<rparr>]) \<and>
   read_u32 image_ok 4 = 0x5A5B5C5D \<and>
   read_u32 image_ok 12 = 0x5A5B5C5D \<and>
   take 4 (drop 4 image_patched) = [0, 59, 61, 75] \<and>
   take 4 (drop 12 image_patched) = [0, 59, 61, 75] \<and>
   read_u32 image_patched 4 = PEFile_timestamp \<and>
   read_u32 image_patched 12 = PEFile_timestamp \<and>
   unat PEFile_timestamp = 1262304000"
proof -
  let ?w = "world_example image_ok pdb_good" and ?w1 = "world_example image_patched pdb_good"
  let ?fh = "\<lparr>offset = 4, length_bytes = 4, data = Timestamp,
          name = ''IMAGE_FILE_HEADER.TimeDateStamp''\<rparr>"
  let ?db = "\<lparr>offset = 12, length_bytes = 4, data = Timestamp,
          name = ''IMAGE_DEBUG_DIRECTORY.TimeDateStamp''\<rparr>"
  let ?L = "[?fh,
        \<lparr>offset = 8, length_bytes = 4, data = Timestamp, name = ''OptionalHeader.CheckSum''\<rparr>,
        ?db,
        \<lparr>offset = 40, length_bytes = 16, data = PdbSignature, name = ''PDB Signature''\<rparr>,
        \<lparr>offset = 56, length_bytes = 4, data = PdbAge, name = ''PDB Age''\<rparr>]"
  have i: "image ?w = image_ok" "image ?w1 = image_patched" by (simp_all add: world_example_def)
  have p: "tiny_PEFile image_ok = Inr (tiny_pe image_ok)"
    by (simp add: tiny_PEFile_def image_ok_def)
  have c: "collectPatches decls_example (tiny_pe image_ok) image_ok = Inr (Some cv_ptr_example, ?L)"
    by (simp add: collectPatches_def patchOptionalHeader_def patchDebugDataDirectories_def
        tiny_pe_def decls_example_def tiny_debug_dirs_def image_ok_def read_u32_def
        u32_of_bytes_def patches_add_def Let_def codeviewEntries_def cv_ptr_example_def)
  have s: "patches_sort ?L = ?L" by (simp add: patches_sort_def)
  have k: "calculateChecksum sum_md5 image_ok (length image_ok) ?L =
             Some [34, 34, 34, 34, 34, 34, 34, 34, 34, 34, 34, 34, 34, 34, 34, 34]"
    by (simp add: calculateChecksum_def mem_read_def size_sub_def size_add_def SIZE_WIDTH_def
        image_ok_def sum_md5_def)
  have b: "beforeApply False decls_example sum_md5 msf_example tiny_PEFile None False ?w =
             (Inr (?L, [34, 34, 34, 34, 34, 34, 34, 34, 34, 34, 34, 34, 34, 34, 34, 34]), ?w)"
    by (simp add: beforeApply_def Let_def i p c s k)
  have a: "patches_apply
             (resolve decls_example [34, 34, 34, 34, 34, 34, 34, 34, 34, 34, 34, 34, 34, 34, 34, 34])
             False ?L image_ok = (None, image_patched)"
    by (simp add: patches_apply_def resolve_def overlaps_def mem_write_def image_ok_def
        image_patched_def decls_example_def u32_bytes_def PEFile_timestamp_def drop_bit_eq_div)
  have run: "patchImageImpl False decls_example sum_md5 msf_example tiny_PEFile None False ?w =
                 (Inr (), ?w1)"
    by (simp add: patchImageImpl_def b a i) (simp add: world_example_def)
  have before: "read_u32 image_ok 4 = 0x5A5B5C5D" "read_u32 image_ok 12 = 0x5A5B5C5D"
    by (simp_all add: image_ok_def read_u32_def u32_of_bytes_def)
  from timestamp_patches_write_epoch[OF run, unfolded i]
  obtain pe info patches where t:
    "tiny_PEFile image_ok = Inr pe" "collectPatches decls_example pe image_ok = Inr (info, patches)"
    "\<forall>p \<in> set patches. name p \<in> set timestampNames \<longrightarrow>
        data p = Timestamp \<and> length_bytes p = 4 \<and>
        take 4 (drop (offset p) image_patched) = [0, 59, 61, 75] \<and>
        read_u32 image_patched (offset p) = PEFile_timestamp"
    "unat PEFile_timestamp = (40 * 365 + 10) * 86400"
    by blast
  from t(1) p have pe: "pe = tiny_pe image_ok" by simp
  from t(2) c pe have ps: "patches = ?L" by simp
  have "?fh \<in> set patches" "name ?fh \<in> set timestampNames"
       "?db \<in> set patches" "name ?db \<in> set timestampNames"
    by (simp_all add: ps timestampNames_def)
  with t(3) have
    "take 4 (drop (offset ?fh) image_patched) = [0, 59, 61, 75] \<and>
     read_u32 image_patched (offset ?fh) = PEFile_timestamp"
    "take 4 (drop (offset ?db) image_patched) = [0, 59, 61, 75] \<and>
     read_u32 image_patched (offset ?db) = PEFile_timestamp"
    by blast+
  then show ?thesis using run c before t(4) by simp
qed

subsection \<open>Debug directory entries without a time stamp\<close>

lemma field_kept:
  assumes "\<forall>p \<in> set ps. \<not> overlaps p \<lparr>offset = a, length_bytes = 4, data = src, name = nm\<rparr>"
  shows "take 4 (drop a (snd (patches_apply V dryRun (patches_sort ps) buf))) = take 4 (drop a buf)"
proof (rule take_drop_eq)
  show "length (snd (patches_apply V dryRun (patches_sort ps) buf)) = length buf"
    by (simp add: patches_apply_def length_applyLoop)
  show "\<forall>i. a \<le> i \<and> i < a + 4 \<and> i < length buf \<longrightarrow>
          snd (patches_apply V dryRun (patches_sort ps) buf) ! i = buf ! i"
  proof (intro allI impI)
    fix i assume i: "a \<le> i \<and> i < a + 4 \<and> i < length buf"
    have "\<not> in_patch ps i"
    proof
      assume "in_patch ps i"
      then obtain p where p: "p \<in> set ps" "offset p \<le> i" "i < offset p + length_bytes p"
        by (auto simp: in_patch_def)
      with i have "overlaps p \<lparr>offset = a, length_bytes = 4, data = src, name = nm\<rparr>"
        by (simp add: overlaps_def)
      with assms p(1) show False by simp
    qed
    with i show "snd (patches_apply V dryRun (patches_sort ps) buf) ! i = buf ! i"
      by (simp add: patches_apply_def applyLoop_frame in_patch_sort)
  qed
qed

text \<open>
  C10, as amended.  When \<^verbatim>\<open>patchDebugDataDirectories\<close> returns, the patches it has added
  are, in order, one \<^verbatim>\<open>TimeDateStamp\<close> patch for each debug directory entry whose
  \<^verbatim>\<open>TimeDateStamp\<close> is not zero, followed by the patches of the CodeView record (which do
  not point to the time stamp): a patch that writes the time stamp at the
  \<^verbatim>\<open>TimeDateStamp\<close> of an entry is added exactly when that member is not zero.  The
  \<^verbatim>\<open>TimeDateStamp\<close> of an entry where it is zero keeps its four bytes, and so the value
  zero, when the patches are applied, provided that no patch of the list, registered for
  another location, overlaps them.
\<close>

theorem debug_timestamp_patched_iff_nonzero:
  assumes "getDebugDataDirs pe opt = Inr dirs"
    and "patchDebugDataDirectories K pe buf patches opt = Inr patches'"
  shows "(\<exists>cvPatches.
            patches' = patches @ map debugTimestampPatch (stampedEntries buf dirs) @ cvPatches \<and>
            (\<forall>p \<in> set cvPatches. data p \<noteq> Timestamp)) \<and>
         (\<forall>d \<in> set dirs.
            (\<exists>p \<in> set (drop (length patches) patches').
               data p = Timestamp \<and> offset p = IMAGE_DEBUG_DIRECTORY_ptr.TimeDateStamp d) =
            (read_u32 buf (IMAGE_DEBUG_DIRECTORY_ptr.TimeDateStamp d) \<noteq> 0)) \<and>
         (\<forall>d \<in> set dirs.
            read_u32 buf (IMAGE_DEBUG_DIRECTORY_ptr.TimeDateStamp d) = 0 \<and>
            (\<forall>p \<in> set patches'. \<not> overlaps p (debugTimestampPatch d)) \<longrightarrow>
            take 4 (drop (IMAGE_DEBUG_DIRECTORY_ptr.TimeDateStamp d)
                      (snd (patches_apply V dryRun (patches_sort patches') buf))) =
              take 4 (drop (IMAGE_DEBUG_DIRECTORY_ptr.TimeDateStamp d) buf) \<and>
            read_u32 (snd (patches_apply V dryRun (patches_sort patches') buf))
              (IMAGE_DEBUG_DIRECTORY_ptr.TimeDateStamp d) = 0)"
proof -
  have 1: "\<exists>cvPatches.
            patches' = patches @ map debugTimestampPatch (stampedEntries buf dirs) @ cvPatches \<and>
            (\<forall>p \<in> set cvPatches. data p \<noteq> Timestamp)"
  proof (cases "codeviewEntries K buf dirs")
    case Nil
    have "patches' = patches @ map debugTimestampPatch (stampedEntries buf dirs) @ []"
      using assms debugDirLoop_no_codeview[OF Nil, of pe patches None]
      by (simp add: patchDebugDataDirectories_def)
    then show ?thesis by (intro exI[of _ "[]"]) simp
  next
    case (Cons c cs)
    let ?cv = "CV_INFO_PDB70_at K (unat (read_u32 buf (PointerToRawData c)))"
    have "patches' = patches @ map debugTimestampPatch (stampedEntries buf dirs) @
            [\<lparr>offset = CV_INFO_PDB70_ptr.Signature ?cv, length_bytes = 16, data = PdbSignature,
               name = ''PDB Signature''\<rparr>,
             \<lparr>offset = CV_INFO_PDB70_ptr.Age ?cv, length_bytes = 4, data = PdbAge, name = ''PDB Age''\<rparr>]"
      using assms debugDirLoop_first_codeview[OF Cons, of pe patches]
      by (simp add: patchDebugDataDirectories_def Let_def patches_add_def split: if_splits)
    then show ?thesis
      by (intro exI[of _ "[\<lparr>offset = CV_INFO_PDB70_ptr.Signature ?cv, length_bytes = 16, data = PdbSignature,
               name = ''PDB Signature''\<rparr>,
             \<lparr>offset = CV_INFO_PDB70_ptr.Age ?cv, length_bytes = 4, data = PdbAge, name = ''PDB Age''\<rparr>]"]) simp
  qed
  then obtain cvPatches
    where sh: "patches' = patches @ map debugTimestampPatch (stampedEntries buf dirs) @ cvPatches"
      and cv: "\<forall>p \<in> set cvPatches. data p \<noteq> Timestamp"
    by blast
  have added: "drop (length patches) patches' =
      map debugTimestampPatch (stampedEntries buf dirs) @ cvPatches"
    by (simp add: sh)
  have 2: "(\<exists>p \<in> set (drop (length patches) patches').
               data p = Timestamp \<and> offset p = IMAGE_DEBUG_DIRECTORY_ptr.TimeDateStamp d) =
            (read_u32 buf (IMAGE_DEBUG_DIRECTORY_ptr.TimeDateStamp d) \<noteq> 0)"
    if d: "d \<in> set dirs" for d
  proof
    assume "\<exists>p \<in> set (drop (length patches) patches').
               data p = Timestamp \<and> offset p = IMAGE_DEBUG_DIRECTORY_ptr.TimeDateStamp d"
    then obtain p where p: "p \<in> set (map debugTimestampPatch (stampedEntries buf dirs))"
        "offset p = IMAGE_DEBUG_DIRECTORY_ptr.TimeDateStamp d"
      using cv by (auto simp: added)
    then obtain d' where "d' \<in> set (stampedEntries buf dirs)" "p = debugTimestampPatch d'"
      by auto
    with p(2) show "read_u32 buf (IMAGE_DEBUG_DIRECTORY_ptr.TimeDateStamp d) \<noteq> 0"
      by (simp add: stampedEntries_def debugTimestampPatch_def)
  next
    assume "read_u32 buf (IMAGE_DEBUG_DIRECTORY_ptr.TimeDateStamp d) \<noteq> 0"
    with d have "d \<in> set (stampedEntries buf dirs)" by (simp add: stampedEntries_def)
    then have "debugTimestampPatch d \<in> set (drop (length patches) patches')"
      by (simp add: added)
    then show "\<exists>p \<in> set (drop (length patches) patches').
               data p = Timestamp \<and> offset p = IMAGE_DEBUG_DIRECTORY_ptr.TimeDateStamp d"
      by (intro bexI[of _ "debugTimestampPatch d"]) (simp_all add: debugTimestampPatch_def)
  qed
  have 3: "take 4 (drop (IMAGE_DEBUG_DIRECTORY_ptr.TimeDateStamp d)
                      (snd (patches_apply V dryRun (patches_sort patches') buf))) =
              take 4 (drop (IMAGE_DEBUG_DIRECTORY_ptr.TimeDateStamp d) buf) \<and>
            read_u32 (snd (patches_apply V dryRun (patches_sort patches') buf))
              (IMAGE_DEBUG_DIRECTORY_ptr.TimeDateStamp d) = 0"
    if z: "read_u32 buf (IMAGE_DEBUG_DIRECTORY_ptr.TimeDateStamp d) = 0"
      and n: "\<forall>p \<in> set patches'. \<not> overlaps p (debugTimestampPatch d)" for d
  proof -
    from n have "take 4 (drop (IMAGE_DEBUG_DIRECTORY_ptr.TimeDateStamp d)
                      (snd (patches_apply V dryRun (patches_sort patches') buf))) =
              take 4 (drop (IMAGE_DEBUG_DIRECTORY_ptr.TimeDateStamp d) buf)"
      unfolding debugTimestampPatch_def by (rule field_kept)
    with z show ?thesis by (simp add: read_u32_def)
  qed
  from 1 2 3 show ?thesis by blast
qed

theorem debug_timestamp_patched_iff_nonzero_witness:
  "getDebugDataDirs (tiny_pe image_ok) \<lparr>CheckSum = 8\<rparr> = Inr tiny_debug_dirs \<and>
   patchDebugDataDirectories decls_example (tiny_pe image_ok) image_ok [] \<lparr>CheckSum = 8\<rparr> =
     Inr [\<lparr>offset = 12, length_bytes = 4, data = Timestamp,
            name = ''IMAGE_DEBUG_DIRECTORY.TimeDateStamp''\<rparr>,
          \<lparr>offset = 40, length_bytes = 16, data = PdbSignature, name = ''PDB Signature''\<rparr>,
          \<lparr>offset = 56, length_bytes = 4, data = PdbAge, name = ''PDB Age''\<rparr>] \<and>
   stampedEntries image_ok tiny_debug_dirs =
     [\<lparr>TimeDateStamp = 12, Type = 16, PointerToRawData = 20\<rparr>] \<and>
   read_u32 image_ok 24 = 0 \<and>
   take 4 (drop 24
     (snd (patches_apply (resolve decls_example (replicate 16 7)) False
          (patches_sort
             [\<lparr>offset = 12, length_bytes = 4, data = Timestamp,
                name = ''IMAGE_DEBUG_DIRECTORY.TimeDateStamp''\<rparr>,
              \<lparr>offset = 40, length_bytes = 16, data = PdbSignature, name = ''PDB Signature''\<rparr>,
              \<lparr>offset = 56, length_bytes = 4, data = PdbAge, name = ''PDB Age''\<rparr>])
          image_ok))) = [0, 0, 0, 0] \<and>
   read_u32
     (snd (patches_apply (resolve decls_example (replicate 16 7)) False
          (patches_sort
             [\<lparr>offset = 12, length_bytes = 4, data = Timestamp,
                name = ''IMAGE_DEBUG_DIRECTORY.TimeDateStamp''\<rparr>,
              \<lparr>offset = 40, length_bytes = 16, data = PdbSignature, name = ''PDB Signature''\<rparr>,
              \<lparr>offset = 56, length_bytes = 4, data = PdbAge, name = ''PDB Age''\<rparr>])
          image_ok)) 24 = 0"
proof -
  let ?ps = "[\<lparr>offset = 12, length_bytes = 4, data = Timestamp,
            name = ''IMAGE_DEBUG_DIRECTORY.TimeDateStamp''\<rparr>,
          \<lparr>offset = 40, length_bytes = 16, data = PdbSignature, name = ''PDB Signature''\<rparr>,
          \<lparr>offset = 56, length_bytes = 4, data = PdbAge, name = ''PDB Age''\<rparr>]"
  let ?d = "\<lparr>TimeDateStamp = 24, Type = 28, PointerToRawData = 32\<rparr>"
  have d: "getDebugDataDirs (tiny_pe image_ok) \<lparr>CheckSum = 8\<rparr> = Inr tiny_debug_dirs"
    by (simp add: tiny_pe_def)
  have r: "patchDebugDataDirectories decls_example (tiny_pe image_ok) image_ok []
       \<lparr>CheckSum = 8\<rparr> = Inr ?ps"
    by (simp add: patchDebugDataDirectories_def tiny_pe_def decls_example_def
        tiny_debug_dirs_def image_ok_def read_u32_def u32_of_bytes_def patches_add_def Let_def)
  have s: "stampedEntries image_ok tiny_debug_dirs =
     [\<lparr>TimeDateStamp = 12, Type = 16, PointerToRawData = 20\<rparr>]"
    by (simp add: stampedEntries_def tiny_debug_dirs_def image_ok_def read_u32_def
        u32_of_bytes_def)
  have m: "?d \<in> set tiny_debug_dirs" by (simp add: tiny_debug_dirs_def)
  have z: "read_u32 image_ok (IMAGE_DEBUG_DIRECTORY_ptr.TimeDateStamp ?d) = 0"
    by (simp add: image_ok_def read_u32_def u32_of_bytes_def)
  have n: "\<forall>p \<in> set ?ps. \<not> overlaps p (debugTimestampPatch ?d)"
    by (simp add: overlaps_def debugTimestampPatch_def)
  have b: "take 4 (drop 24 image_ok) = [0, 0, 0, 0]" by (simp add: image_ok_def)
  from debug_timestamp_patched_iff_nonzero
      [OF d r, where V = "resolve decls_example (replicate 16 7)" and dryRun = False] m z n
  have "take 4 (drop (IMAGE_DEBUG_DIRECTORY_ptr.TimeDateStamp ?d)
           (snd (patches_apply (resolve decls_example (replicate 16 7)) False
              (patches_sort ?ps) image_ok))) =
          take 4 (drop (IMAGE_DEBUG_DIRECTORY_ptr.TimeDateStamp ?d) image_ok) \<and>
        read_u32 (snd (patches_apply (resolve decls_example (replicate 16 7)) False
              (patches_sort ?ps) image_ok)) (IMAGE_DEBUG_DIRECTORY_ptr.TimeDateStamp ?d) = 0"
    by blast
  then show ?thesis using d r s z b by simp
qed

text \<open>
  The claim as stated fails: in \<open>image_overlap\<close> the second entry has a zero time stamp at
  offset 24 and gets no patch, yet the run overwrites its four bytes, because the GUID of the
  CodeView record, patched at 16 to 31, lies over them.
\<close>

theorem zero_stamp_overwritten_counterexample:
  "getDebugDataDirs (tiny_pe image_overlap) \<lparr>CheckSum = 8\<rparr> = Inr tiny_debug_dirs \<and>
   read_u32 image_overlap 24 = 0 \<and>
   patchDebugDataDirectories decls_example (tiny_pe image_overlap) image_overlap []
       \<lparr>CheckSum = 8\<rparr> =
     Inr [\<lparr>offset = 12, length_bytes = 4, data = Timestamp,
            name = ''IMAGE_DEBUG_DIRECTORY.TimeDateStamp''\<rparr>,
          \<lparr>offset = 16, length_bytes = 16, data = PdbSignature, name = ''PDB Signature''\<rparr>,
          \<lparr>offset = 32, length_bytes = 4, data = PdbAge, name = ''PDB Age''\<rparr>] \<and>
   take 4 (drop 24
     (snd (patches_apply (resolve decls_example
            [7, 7, 7, 7, 7, 7, 7, 7, 7, 7, 7, 7, 7, 7, 7, 7]) False
          (patches_sort
             [\<lparr>offset = 12, length_bytes = 4, data = Timestamp,
                name = ''IMAGE_DEBUG_DIRECTORY.TimeDateStamp''\<rparr>,
              \<lparr>offset = 16, length_bytes = 16, data = PdbSignature, name = ''PDB Signature''\<rparr>,
              \<lparr>offset = 32, length_bytes = 4, data = PdbAge, name = ''PDB Age''\<rparr>])
          image_overlap))) = [7, 7, 7, 7] \<and>
   patchImageImpl False decls_example sum_md5 msf_example tiny_PEFile None False
       (world_example image_overlap pdb_good) =
     (Inr (), world_example image_overlap_patched pdb_good) \<and>
   take 4 (drop 24 image_overlap) = [0, 0, 0, 0] \<and>
   take 4 (drop 24 image_overlap_patched) = [179, 179, 179, 179] \<and>
   read_u32 image_overlap_patched 24 = 0xB3B3B3B3"
proof -
  let ?w = "world_example image_overlap pdb_good"
  let ?ps = "[\<lparr>offset = 12, length_bytes = 4, data = Timestamp,
            name = ''IMAGE_DEBUG_DIRECTORY.TimeDateStamp''\<rparr>,
          \<lparr>offset = 16, length_bytes = 16, data = PdbSignature, name = ''PDB Signature''\<rparr>,
          \<lparr>offset = 32, length_bytes = 4, data = PdbAge, name = ''PDB Age''\<rparr>]"
  let ?L = "\<lparr>offset = 4, length_bytes = 4, data = Timestamp,
          name = ''IMAGE_FILE_HEADER.TimeDateStamp''\<rparr> #
        \<lparr>offset = 8, length_bytes = 4, data = Timestamp, name = ''OptionalHeader.CheckSum''\<rparr> #
        ?ps"
  let ?sig = "[179, 179, 179, 179, 179, 179, 179, 179, 179, 179, 179, 179, 179, 179, 179, 179]
                :: byte list"
  have d: "getDebugDataDirs (tiny_pe image_overlap) \<lparr>CheckSum = 8\<rparr> = Inr tiny_debug_dirs"
    by (simp add: tiny_pe_def)
  have z: "read_u32 image_overlap 24 = 0"
    by (simp add: image_overlap_def read_u32_def u32_of_bytes_def)
  have r: "patchDebugDataDirectories decls_example (tiny_pe image_overlap) image_overlap []
       \<lparr>CheckSum = 8\<rparr> = Inr ?ps"
    by (simp add: patchDebugDataDirectories_def tiny_pe_def decls_example_def
        tiny_debug_dirs_def image_overlap_def read_u32_def u32_of_bytes_def patches_add_def
        Let_def)
  have a7: "take 4 (drop 24
     (snd (patches_apply (resolve decls_example
            [7, 7, 7, 7, 7, 7, 7, 7, 7, 7, 7, 7, 7, 7, 7, 7]) False (patches_sort ?ps)
          image_overlap))) = [7, 7, 7, 7]"
    by (simp add: patches_sort_def patches_apply_def resolve_def overlaps_def mem_write_def
        image_overlap_def decls_example_def u32_bytes_def PEFile_timestamp_def drop_bit_eq_div)
  have i: "image ?w = image_overlap" by (simp add: world_example_def)
  have p: "tiny_PEFile image_overlap = Inr (tiny_pe image_overlap)"
    by (simp add: tiny_PEFile_def image_overlap_def)
  have c: "collectPatches decls_example (tiny_pe image_overlap) image_overlap =
      Inr (Some \<lparr>CV_INFO_PDB70_ptr.CvSignature = 12, CV_INFO_PDB70_ptr.Signature = 16,
                  CV_INFO_PDB70_ptr.Age = 32\<rparr>, ?L)"
    by (simp add: collectPatches_def patchOptionalHeader_def patchDebugDataDirectories_def
        tiny_pe_def decls_example_def tiny_debug_dirs_def image_overlap_def read_u32_def
        u32_of_bytes_def patches_add_def Let_def codeviewEntries_def)
  have s: "patches_sort ?L = ?L" by (simp add: patches_sort_def)
  have k: "calculateChecksum sum_md5 image_overlap (length image_overlap) ?L = Some ?sig"
    by (simp add: calculateChecksum_def mem_read_def size_sub_def size_add_def SIZE_WIDTH_def
        image_overlap_def sum_md5_def)
  have b: "beforeApply False decls_example sum_md5 msf_example tiny_PEFile None False ?w =
             (Inr (?L, ?sig), ?w)"
    by (simp add: beforeApply_def Let_def i p c s k)
  have a: "patches_apply (resolve decls_example ?sig) False ?L image_overlap =
             (None, image_overlap_patched)"
    by (simp add: patches_apply_def resolve_def overlaps_def mem_write_def image_overlap_def
        image_overlap_patched_def decls_example_def u32_bytes_def PEFile_timestamp_def
        drop_bit_eq_div)
  have run: "patchImageImpl False decls_example sum_md5 msf_example tiny_PEFile None False ?w =
                 (Inr (), world_example image_overlap_patched pdb_good)"
    by (simp add: patchImageImpl_def b a i) (simp add: world_example_def)
  have t: "take 4 (drop 24 image_overlap) = [0, 0, 0, 0]"
          "take 4 (drop 24 image_overlap_patched) = [179, 179, 179, 179]"
          "read_u32 image_overlap_patched 24 = 0xB3B3B3B3"
    by (simp_all add: image_overlap_def image_overlap_patched_def read_u32_def u32_of_bytes_def)
  from d z r a7 run t show ?thesis by simp
qed

end
